theory Spec2Isabelle
  imports Complex_Main "HOL-Library.Word" "HOL-Library.Multiset"
begin

unbundle bit_operations_syntax

section \<open>simpleperf report: data model\<close>

text \<open>
  A shallow embedding of \<^verbatim>\<open>simpleperf/cmd_report.cpp\<close>. Machine integers are words:
  \<^verbatim>\<open>uint64_t\<close> is \<open>64 word\<close>, and \<^verbatim>\<open>int\<close>, \<^verbatim>\<open>pid_t\<close>, \<^verbatim>\<open>uint32_t\<close> are
  \<open>32 word\<close> bit patterns (read with \<open>sint\<close> where the code compares signed values).
  A data member \<^verbatim>\<open>name_\<close> of a class is written \<open>name'\<close>. Pointers to entries of a
  builder's sample set are indices into the list that holds the set.
\<close>

type_synonym u64 = "64 word"
type_synonym u32 = "32 word"

datatype error =
    ReturnFalse string
  | CheckFailed string
  | OutOfRange string

text \<open>
  \<open>ReturnFalse\<close> is a \<^verbatim>\<open>return false\<close> of the command with the reason that is logged;
  \<open>CheckFailed\<close> is a failed \<^verbatim>\<open>CHECK\<close>, which logs the condition and aborts the process;
  \<open>OutOfRange\<close> is an unchecked access outside a vector, whose behaviour is undefined.
\<close>

record Dso =
  dso_id :: nat
  report_path :: string

record Symbol =
  symbol_addr :: u64
  demangled_name :: string

record MapEntry =
  start_addr :: u64
  dso :: Dso

record ThreadEntry =
  thread_pid :: u32
  thread_tid :: u32
  comm :: string

text \<open>
  The thread tree (\<^verbatim>\<open>thread_tree.h\<close>) is the external symbolizer. The builders only
  query it, so it is a record of lookup functions; every call of a builder receives the
  tree as it is at that moment.
\<close>

record ThreadTree =
  FindThreadOrNew :: "u32 \<Rightarrow> u32 \<Rightarrow> ThreadEntry"
  FindMap :: "ThreadEntry \<Rightarrow> u64 \<Rightarrow> bool \<Rightarrow> MapEntry"
  FindMapAnywhere :: "ThreadEntry \<Rightarrow> u64 \<Rightarrow> MapEntry"
  FindSymbol :: "MapEntry \<Rightarrow> u64 \<Rightarrow> Symbol \<times> u64"
  IsUnknownDso :: "Dso \<Rightarrow> bool"

record BranchFromEntry =
  from_map :: "MapEntry option"
  from_symbol :: "Symbol option"
  from_vaddr_in_file :: u64
  from_flags :: u64

definition BranchFromEntry_init :: BranchFromEntry where
  "BranchFromEntry_init =
     \<lparr>from_map = None, from_symbol = None, from_vaddr_in_file = 0, from_flags = 0\<rparr>"

text \<open>
  The callchain tree of an entry is kept as the sequence of chains attached to it, each
  a path of entry indices with the period it was attached with.
\<close>

record SampleEntry =
  time :: u64
  period :: u64
  accumulated_period :: u64
  sample_count :: u64
  cpu :: u32
  pid :: u32
  tid :: u32
  thread_comm :: string
  map_entry :: MapEntry
  symbol :: Symbol
  vaddr_in_file :: u64
  branch_from :: BranchFromEntry
  callchain :: "(nat list \<times> u64) list"

definition SampleEntry_new ::
  "u64 \<Rightarrow> u64 \<Rightarrow> u64 \<Rightarrow> u64 \<Rightarrow> u32 \<Rightarrow> ThreadEntry \<Rightarrow> MapEntry \<Rightarrow> Symbol \<Rightarrow> u64 \<Rightarrow> SampleEntry"
where
  "SampleEntry_new t p acc n c thread m s vaddr =
     \<lparr>time = t, period = p, accumulated_period = acc, sample_count = n, cpu = c,
      pid = thread_pid thread, tid = thread_tid thread, thread_comm = comm thread,
      map_entry = m, symbol = s, vaddr_in_file = vaddr,
      branch_from = BranchFromEntry_init, callchain = []\<rparr>"

record SampleTree =
  samples :: "SampleEntry list"
  total_samples :: u64
  total_period :: u64
  total_error_callchains :: u64
  event_name :: string

record BranchStackItemType =
  item_from :: u64
  item_to :: u64
  item_flags :: u64

text \<open>
  A sample record (\<^verbatim>\<open>record.h\<close>), with the fields the report command reads:
  \<^verbatim>\<open>time_data.time\<close>, \<^verbatim>\<open>period_data.period\<close>, \<^verbatim>\<open>tid_data.pid\<close>, \<^verbatim>\<open>tid_data.tid\<close>,
  \<^verbatim>\<open>ip_data.ip\<close>, \<^verbatim>\<open>Cpu()\<close>, \<^verbatim>\<open>InKernel()\<close>, the frame list of the call chain (each
  instruction pointer with its kernel flag) and the branch stack.
\<close>

record SampleRecord =
  r_time :: u64
  r_period :: u64
  r_pid :: u32
  r_tid :: u32
  r_ip :: u64
  r_cpu :: u32
  r_in_kernel :: bool
  r_callchain :: "(u64 \<times> bool) list"
  r_branch_stack :: "BranchStackItemType list"

section \<open>Sample comparator\<close>

text \<open>
  Modelled from the spec: the field comparators of \<^verbatim>\<open>sample_tree.h\<close> and
  \<^verbatim>\<open>SampleComparator.h\<close>, which are not part of the source given. The spec's table:
  pid and tid compare integer ids, comm the thread name string, dso the image report
  path, symbol the demangled name, vaddr\_in\_file the image-relative address, dso\_from
  and symbol\_from the branch-source fields. A comparator is an ordered list of them and
  yields the first non-equal result; the result is negative, zero or positive.
\<close>

datatype compare_function =
    ComparePid
  | CompareTid
  | CompareComm
  | CompareDso
  | CompareSymbol
  | CompareVaddrInFile
  | CompareDsoFrom
  | CompareSymbolFrom

definition compare_value :: "int \<Rightarrow> int \<Rightarrow> int" where
  "compare_value a b = (if a \<noteq> b then (if a < b then - 1 else 1) else 0)"

fun compare_string :: "string \<Rightarrow> string \<Rightarrow> int" where
  "compare_string [] [] = 0"
| "compare_string [] (y # ys) = - 1"
| "compare_string (x # xs) [] = 1"
| "compare_string (x # xs) (y # ys) =
     (if x = y then compare_string xs ys
      else if (of_char x :: nat) < of_char y then - 1 else 1)"

fun compare_optional_string :: "string option \<Rightarrow> string option \<Rightarrow> int" where
  "compare_optional_string None None = 0"
| "compare_optional_string None (Some b) = - 1"
| "compare_optional_string (Some a) None = 1"
| "compare_optional_string (Some a) (Some b) = compare_string a b"

definition dso_from_path :: "SampleEntry \<Rightarrow> string option" where
  "dso_from_path e = map_option (\<lambda>m. report_path (dso m)) (from_map (branch_from e))"

definition symbol_from_name :: "SampleEntry \<Rightarrow> string option" where
  "symbol_from_name e = map_option demangled_name (from_symbol (branch_from e))"

fun apply_compare :: "compare_function \<Rightarrow> SampleEntry \<Rightarrow> SampleEntry \<Rightarrow> int" where
  "apply_compare ComparePid a b = compare_value (sint (pid a)) (sint (pid b))"
| "apply_compare CompareTid a b = compare_value (sint (tid a)) (sint (tid b))"
| "apply_compare CompareComm a b = compare_string (thread_comm a) (thread_comm b)"
| "apply_compare CompareDso a b =
     compare_string (report_path (dso (map_entry a))) (report_path (dso (map_entry b)))"
| "apply_compare CompareSymbol a b =
     compare_string (demangled_name (symbol a)) (demangled_name (symbol b))"
| "apply_compare CompareVaddrInFile a b =
     compare_value (uint (vaddr_in_file a)) (uint (vaddr_in_file b))"
| "apply_compare CompareDsoFrom a b =
     compare_optional_string (dso_from_path a) (dso_from_path b)"
| "apply_compare CompareSymbolFrom a b =
     compare_optional_string (symbol_from_name a) (symbol_from_name b)"

fun compare_samples :: "compare_function list \<Rightarrow> SampleEntry \<Rightarrow> SampleEntry \<Rightarrow> int" where
  "compare_samples [] a b = 0"
| "compare_samples (f # fs) a b =
     (let ret = apply_compare f a b in if ret \<noteq> 0 then ret else compare_samples fs a b)"

definition IsSameSample :: "compare_function list \<Rightarrow> SampleEntry \<Rightarrow> SampleEntry \<Rightarrow> bool" where
  "IsSameSample cmp a b = (compare_samples cmp a b = 0)"

fun find_sample :: "compare_function list \<Rightarrow> SampleEntry list \<Rightarrow> SampleEntry \<Rightarrow> nat option" where
  "find_sample cmp [] s = None"
| "find_sample cmp (e # es) s =
     (if IsSameSample cmp e s then Some 0 else map_option Suc (find_sample cmp es s))"

section \<open>Sample tree builders\<close>

datatype builder_kind = EventCountSampleTreeBuilder | TimestampSampleTreeBuilder

text \<open>
  A \<^verbatim>\<open>ReportCmdSampleTreeBuilder\<close> with the state of its base class: the comparator, the
  sample set (a list in insertion order, no two entries equal under the comparator) and
  the branch and callchain options. \<open>kind\<close> is the dynamic class of the object; only a
  \<open>TimestampSampleTreeBuilder\<close> uses \<open>next_sample_cache'\<close>.
\<close>

record ReportCmdSampleTreeBuilder =
  kind :: builder_kind
  sample_comparator' :: "compare_function list"
  sample_set' :: "SampleEntry list"
  builder_use_branch_address' :: bool
  builder_accumulate_callchain' :: bool
  builder_build_callchain' :: bool
  builder_use_caller_as_callchain_root' :: bool
  cpu_filter' :: "u32 set"
  pid_filter' :: "u32 set"
  tid_filter' :: "u32 set"
  comm_filter' :: "string set"
  dso_filter' :: "string set"
  symbol_filter' :: "string set"
  total_samples' :: u64
  total_period' :: u64
  total_error_callchains' :: u64
  event_name' :: string
  next_sample_cache' :: "u32 \<rightharpoonup> SampleRecord"

definition FilterSample :: "ReportCmdSampleTreeBuilder \<Rightarrow> SampleEntry \<Rightarrow> bool" where
  "FilterSample b sample =
     (if cpu_filter' b \<noteq> {} \<and> cpu sample \<notin> cpu_filter' b then False
      else if pid_filter' b \<noteq> {} \<and> pid sample \<notin> pid_filter' b then False
      else if tid_filter' b \<noteq> {} \<and> tid sample \<notin> tid_filter' b then False
      else if comm_filter' b \<noteq> {} \<and> thread_comm sample \<notin> comm_filter' b then False
      else if dso_filter' b \<noteq> {} \<and> report_path (dso (map_entry sample)) \<notin> dso_filter' b
        then False
      else if symbol_filter' b \<noteq> {} \<and> demangled_name (symbol sample) \<notin> symbol_filter' b
        then False
      else True)"

definition UpdateSummary :: "ReportCmdSampleTreeBuilder \<Rightarrow> SampleEntry \<Rightarrow> ReportCmdSampleTreeBuilder" where
  "UpdateSummary b sample =
     b\<lparr>total_samples' := total_samples' b + sample_count sample,
       total_period' := total_period' b + period sample\<rparr>"

definition MergeSample :: "SampleEntry \<Rightarrow> SampleEntry \<Rightarrow> SampleEntry" where
  "MergeSample sample1 sample2 =
     sample1\<lparr>period := period sample1 + period sample2,
             accumulated_period := accumulated_period sample1 + accumulated_period sample2,
             sample_count := sample_count sample1 + sample_count sample2\<rparr>"

text \<open>
  Modelled from the spec: \<^verbatim>\<open>SampleTreeBuilder::InsertSample\<close> of \<^verbatim>\<open>sample_tree.h\<close>, which
  is not part of the source given. A rejected sample is not inserted and does not update
  the totals; \<open>UpdateSummary\<close> is called once per folded sample with the sample's own
  period; if the builder contains an entry equal under the configured comparator the
  sample is merged into it, otherwise it is stored. The result is the builder and the
  entry that now carries the sample's contribution.
\<close>

definition InsertSample ::
  "ReportCmdSampleTreeBuilder \<Rightarrow> SampleEntry \<Rightarrow> ReportCmdSampleTreeBuilder \<times> nat option"
where
  "InsertSample b sample =
     (if \<not> FilterSample b sample then (b, None)
      else
        let b1 = UpdateSummary b sample in
        case find_sample (sample_comparator' b1) (sample_set' b1) sample of
          None \<Rightarrow>
            (b1\<lparr>sample_set' := sample_set' b1 @ [sample]\<rparr>, Some (length (sample_set' b1)))
        | Some i \<Rightarrow>
            (b1\<lparr>sample_set' := (sample_set' b1)[i := MergeSample (sample_set' b1 ! i) sample]\<rparr>,
             Some i))"

text \<open>
  Modelled from the spec: \<^verbatim>\<open>SampleTreeBuilder::InsertCallChainSample\<close> of
  \<^verbatim>\<open>sample_tree.h\<close>. A frame's entry is not filtered and does not update the totals; its
  identity uses the same comparator as the flat aggregation, so it merges with any entry
  it matches, and the cost is counted once per originating sample: an entry already on
  this sample's chain is returned as it is.
\<close>

definition InsertCallChainSample ::
  "ReportCmdSampleTreeBuilder \<Rightarrow> SampleEntry \<Rightarrow> nat list \<Rightarrow> ReportCmdSampleTreeBuilder \<times> nat option"
where
  "InsertCallChainSample b sample chain =
     (case find_sample (sample_comparator' b) (sample_set' b) sample of
        None \<Rightarrow> (b\<lparr>sample_set' := sample_set' b @ [sample]\<rparr>, Some (length (sample_set' b)))
      | Some i \<Rightarrow>
          if i \<in> set chain then (b, Some i)
          else
            (b\<lparr>sample_set' := (sample_set' b)[i := MergeSample (sample_set' b ! i) sample]\<rparr>,
             Some i))"

definition GetPeriod :: "ReportCmdSampleTreeBuilder \<Rightarrow> SampleRecord \<Rightarrow> error + u64" where
  "GetPeriod b r =
     (case kind b of
        EventCountSampleTreeBuilder \<Rightarrow> Inr (r_period r)
      | TimestampSampleTreeBuilder \<Rightarrow>
          (case next_sample_cache' b (r_tid r) of
             None \<Rightarrow> Inl (CheckFailed ''it != next_sample_cache_.end()'')
           | Some nxt \<Rightarrow>
               if r_time nxt > r_time r then Inr (r_time nxt - r_time r) else Inr 1))"

text \<open>
  The entry that \<^verbatim>\<open>CreateSample\<close> builds for a record and a period before it inserts it.
\<close>

definition CreateSample_entry :: "ThreadTree \<Rightarrow> SampleRecord \<Rightarrow> bool \<Rightarrow> u64 \<Rightarrow> SampleEntry" where
  "CreateSample_entry tt r in_kernel p =
     (let thread = FindThreadOrNew tt (r_pid r) (r_tid r);
          m = FindMap tt thread (r_ip r) in_kernel;
          (sym, vaddr) = FindSymbol tt m (r_ip r)
      in SampleEntry_new (r_time r) p 0 1 (r_cpu r) thread m sym vaddr)"

text \<open>
  \<open>CreateSample\<close> returns the builder, the entry that carries the sample (if the filter
  accepted it) and \<^verbatim>\<open>*acc_info\<close>.
\<close>

definition CreateSample ::
  "ThreadTree \<Rightarrow> ReportCmdSampleTreeBuilder \<Rightarrow> SampleRecord \<Rightarrow> bool \<Rightarrow>
     error + (ReportCmdSampleTreeBuilder \<times> nat option \<times> u64)"
where
  "CreateSample tt b r in_kernel =
     (case GetPeriod b r of
        Inl e \<Rightarrow> Inl e
      | Inr p \<Rightarrow>
          (let (b1, res) = InsertSample b (CreateSample_entry tt r in_kernel p)
           in Inr (b1, res, p)))"

text \<open>The entry that \<^verbatim>\<open>CreateBranchSample\<close> builds for one item of the branch stack.\<close>

definition CreateBranchSample_entry ::
  "ThreadTree \<Rightarrow> SampleRecord \<Rightarrow> BranchStackItemType \<Rightarrow> SampleEntry"
where
  "CreateBranchSample_entry tt r item =
     (let thread = FindThreadOrNew tt (r_pid r) (r_tid r);
          fm = FindMapAnywhere tt thread (item_from item);
          (fsym, fvaddr) = FindSymbol tt fm (item_from item);
          tm = FindMapAnywhere tt thread (item_to item);
          (tsym, tvaddr) = FindSymbol tt tm (item_to item);
          sample = SampleEntry_new (r_time r) (r_period r) 0 1 (r_cpu r) thread tm tsym tvaddr
      in sample\<lparr>branch_from :=
           \<lparr>from_map = Some fm, from_symbol = Some fsym, from_vaddr_in_file = fvaddr,
            from_flags = item_flags item\<rparr>\<rparr>)"

definition CreateBranchSample ::
  "ThreadTree \<Rightarrow> ReportCmdSampleTreeBuilder \<Rightarrow> SampleRecord \<Rightarrow> BranchStackItemType \<Rightarrow>
     ReportCmdSampleTreeBuilder \<times> nat option"
where
  "CreateBranchSample tt b r item = InsertSample b (CreateBranchSample_entry tt r item)"

text \<open>
  The entry that \<^verbatim>\<open>CreateCallChainSample\<close> builds for a frame whose map \<open>m\<close> has a known
  DSO.
\<close>

definition CreateCallChainSample_entry ::
  "ThreadTree \<Rightarrow> ThreadEntry \<Rightarrow> SampleEntry \<Rightarrow> MapEntry \<Rightarrow> u64 \<Rightarrow> u64 \<Rightarrow> SampleEntry"
where
  "CreateCallChainSample_entry tt thread sample m ip acc_info =
     (let (sym, vaddr) = FindSymbol tt m ip;
          callchain_sample =
            SampleEntry_new (time sample) 0 acc_info 0 (cpu sample) thread m sym vaddr
      in callchain_sample\<lparr>thread_comm := thread_comm sample\<rparr>)"

definition CreateCallChainSample ::
  "ThreadTree \<Rightarrow> ReportCmdSampleTreeBuilder \<Rightarrow> ThreadEntry \<Rightarrow> SampleEntry \<Rightarrow> u64 \<Rightarrow> bool \<Rightarrow>
     nat list \<Rightarrow> u64 \<Rightarrow> ReportCmdSampleTreeBuilder \<times> nat option"
where
  "CreateCallChainSample tt b thread sample ip in_kernel chain acc_info =
     (let m = FindMap tt thread ip in_kernel in
      if IsUnknownDso tt (dso m)
      then (b\<lparr>total_error_callchains' := total_error_callchains' b + 1\<rparr>, None)
      else InsertCallChainSample b (CreateCallChainSample_entry tt thread sample m ip acc_info) chain)"

definition GetThreadOfSample :: "ThreadTree \<Rightarrow> SampleEntry \<Rightarrow> ThreadEntry" where
  "GetThreadOfSample tt sample = FindThreadOrNew tt (pid sample) (tid sample)"

definition GetPeriodForCallChain :: "u64 \<Rightarrow> u64" where
  "GetPeriodForCallChain acc_info = acc_info"

text \<open>
  Modelled from the spec: the callchain accumulator of \<^verbatim>\<open>sample_tree.h\<close>. The frames of
  the sample are walked in order; each surviving frame inserts an entry through
  \<open>CreateCallChainSample\<close>, and the first skipped frame short-circuits the remainder of
  the chain. The chain starts with the originating entry.
\<close>

fun accumulate_frames ::
  "ThreadTree \<Rightarrow> ReportCmdSampleTreeBuilder \<Rightarrow> ThreadEntry \<Rightarrow> nat \<Rightarrow> (u64 \<times> bool) list \<Rightarrow>
     nat list \<Rightarrow> u64 \<Rightarrow> ReportCmdSampleTreeBuilder \<times> nat list"
where
  "accumulate_frames tt b thread si [] chain acc_info = (b, chain)"
| "accumulate_frames tt b thread si ((ip, in_kernel) # frames) chain acc_info =
     (case CreateCallChainSample tt b thread (sample_set' b ! si) ip in_kernel chain acc_info of
        (b1, None) \<Rightarrow> (b1, chain)
      | (b1, Some ci) \<Rightarrow> accumulate_frames tt b1 thread si frames (chain @ [ci]) acc_info)"

text \<open>
  Modelled from the spec: chain insertion. The frame list is attached as a path under
  the originating sample's callchain tree with the period \<open>acc_info\<close>; with the callee as
  root the frame order is reversed.
\<close>

definition InsertCallChainForSample ::
  "ReportCmdSampleTreeBuilder \<Rightarrow> nat \<Rightarrow> nat list \<Rightarrow> u64 \<Rightarrow> ReportCmdSampleTreeBuilder"
where
  "InsertCallChainForSample b si frames acc_info =
     (let path = (if builder_use_caller_as_callchain_root' b then frames else rev frames);
          e = sample_set' b ! si
      in b\<lparr>sample_set' :=
             (sample_set' b)[si := e\<lparr>callchain := callchain e @ [(path, GetPeriodForCallChain acc_info)]\<rparr>]\<rparr>)"

text \<open>
  Modelled from the spec: \<^verbatim>\<open>SampleTreeBuilder::ProcessSampleRecord\<close> of \<^verbatim>\<open>sample_tree.h\<close>.
  In branch mode a record produces one entry per branch-stack item. Otherwise the sample
  is created with the kernel flag of the record; a rejected sample contributes nothing
  more; an accepted one has its call chain expanded when callchain accumulation is on,
  and the chain attached to its tree when the call graph is built.
\<close>

definition ProcessSampleRecord ::
  "ThreadTree \<Rightarrow> ReportCmdSampleTreeBuilder \<Rightarrow> SampleRecord \<Rightarrow> error + ReportCmdSampleTreeBuilder"
where
  "ProcessSampleRecord tt b r =
     (if builder_use_branch_address' b
      then Inr (fold (\<lambda>item b1. fst (CreateBranchSample tt b1 r item)) (r_branch_stack r) b)
      else
        case CreateSample tt b r (r_in_kernel r) of
          Inl e \<Rightarrow> Inl e
        | Inr (b1, None, acc_info) \<Rightarrow> Inr b1
        | Inr (b1, Some si, acc_info) \<Rightarrow>
            if builder_accumulate_callchain' b1
            then
              (let thread = GetThreadOfSample tt (sample_set' b1 ! si);
                   (b2, chain) = accumulate_frames tt b1 thread si (r_callchain r) [si] acc_info
               in if builder_build_callchain' b2
                  then Inr (InsertCallChainForSample b2 si (tl chain) acc_info)
                  else Inr b2)
            else Inr b1)"

text \<open>
  \<open>ReportCmdProcessSampleRecord\<close> is the overload that takes the shared record, which
  \<open>TimestampSampleTreeBuilder\<close> overrides; \<open>ReportCmdProcessSampleRecord_ref\<close> is the
  overload that takes a reference, which no class overrides.
\<close>

definition ReportCmdProcessSampleRecord ::
  "ThreadTree \<Rightarrow> ReportCmdSampleTreeBuilder \<Rightarrow> SampleRecord \<Rightarrow> error + ReportCmdSampleTreeBuilder"
where
  "ReportCmdProcessSampleRecord tt b r =
     (case kind b of
        EventCountSampleTreeBuilder \<Rightarrow> ProcessSampleRecord tt b r
      | TimestampSampleTreeBuilder \<Rightarrow>
          (let t = r_tid r in
           case next_sample_cache' b t of
             None \<Rightarrow> Inr (b\<lparr>next_sample_cache' := (next_sample_cache' b)(t \<mapsto> r)\<rparr>)
           | Some cur \<Rightarrow>
               ProcessSampleRecord tt (b\<lparr>next_sample_cache' := (next_sample_cache' b)(t \<mapsto> r)\<rparr>) cur))"

definition ReportCmdProcessSampleRecord_ref ::
  "ThreadTree \<Rightarrow> ReportCmdSampleTreeBuilder \<Rightarrow> SampleRecord \<Rightarrow> error + ReportCmdSampleTreeBuilder"
where
  "ReportCmdProcessSampleRecord_ref tt b r = ProcessSampleRecord tt b r"

text \<open>
  \<open>GetSampleTree\<close> copies the entries and the totals. The duplicate marks that
  \<^verbatim>\<open>AddCallChainDuplicateInfo\<close> sets inside the callchain trees are not represented.
\<close>

definition GetSampleTree :: "ReportCmdSampleTreeBuilder \<Rightarrow> SampleTree" where
  "GetSampleTree b =
     \<lparr>samples = sample_set' b,
      total_samples = total_samples' b,
      total_period = total_period' b,
      total_error_callchains = total_error_callchains' b,
      event_name = event_name' b\<rparr>"

section \<open>The report command\<close>

subsection \<open>Options\<close>

text \<open>
  \<^verbatim>\<open>PreprocessOptions\<close> (\<^verbatim>\<open>command.h\<close>) checks the arguments against \<^verbatim>\<open>option_formats\<close>
  and fills the option map. The map is kept typed by that table: an option of value type
  NONE is a flag, a STRING option that may repeat is the list of its values, a single
  STRING, UINT or DOUBLE option is optional, and \<^verbatim>\<open>-g\<close> (OPT\_STRING) is optional with
  an optional string. \<^verbatim>\<open>ParseOptions\<close> pulls every name of the table, so the final
  \<^verbatim>\<open>CHECK(options.values.empty())\<close> holds.
\<close>

record OptionValueMap =
  opt_b :: bool
  opt_children :: bool
  opt_comms :: "string list"
  opt_cpu :: "string list"
  opt_csv :: bool
  opt_dsos :: "string list"
  opt_full_callgraph :: bool
  opt_g :: "string option option"
  opt_i :: "string option"
  opt_kallsyms :: "string option"
  opt_max_stack :: "nat option"
  opt_n :: bool
  opt_no_demangle :: bool
  opt_no_show_ip :: bool
  opt_o :: "string option"
  opt_percent_limit :: "real option"
  opt_pids :: "string list"
  opt_tids :: "string list"
  opt_raw_period :: bool
  opt_sort :: "string option"
  opt_symbols :: "string list"
  opt_symfs :: "string option"
  opt_vmlinux :: "string option"

datatype ArchType = ARCH_X86_32 | ARCH_X86_64 | ARCH_ARM | ARCH_ARM64 | ARCH_UNSUPPORTED

record perf_event_attr =
  attr_type :: u32
  attr_config :: u64
  attr_sample_type :: u64

record EventAttrWithName =
  attr :: perf_event_attr
  name :: string


definition PERF_TYPE_TRACEPOINT :: u32 where
  "PERF_TYPE_TRACEPOINT = 2"

datatype Record =
    Sample nat SampleRecord
  | TracingData string
  | OtherRecord nat

text \<open>
  \<open>Sample i r\<close> is a record of type \<^verbatim>\<open>PERF_RECORD_SAMPLE\<close> with
  \<^verbatim>\<open>GetAttrIndexOfRecord\<close> equal to \<open>i\<close>; \<open>TracingData\<close> is a tracing data record of
  either type; \<open>OtherRecord\<close> is any other record, which only updates the thread tree.
\<close>

record RecordFileReader =
  GetMetaInfoFeature :: "string \<rightharpoonup> string"
  AttrSection :: "perf_event_attr list"
  ReadFeatureString_ARCH :: string
  ReadCmdlineFeature :: "string list"
  FeatureSection_TRACING_DATA :: "string option option"
  DataSection :: "Record list"
  DataSection_readable :: bool

text \<open>
  The record file as its reader presents it. \<open>FeatureSection_TRACING_DATA\<close> is \<open>None\<close>
  when the file has no such feature and \<open>Some None\<close> when reading it fails.
  \<^verbatim>\<open>ReadDataSection\<close> hands the records of \<open>DataSection\<close> to the callback in order and
  then reports whether the section was read to its end.
\<close>

datatype display_function =
    DisplayAccumulatedPeriod
  | DisplaySelfPeriod
  | DisplayAccumulatedOverhead
  | DisplaySelfOverhead
  | DisplaySampleCount
  | DisplayPid
  | DisplayTid
  | DisplayComm
  | DisplayDso
  | DisplaySymbol
  | DisplayVaddrInFile
  | DisplayDsoFrom
  | DisplaySymbolFrom
  | DisplayEventName

datatype exclusive_display_function =
    ReportCmdCallgraphDisplayerWithVaddrInFile
  | ReportCmdCallgraphDisplayer u32 real bool

record SampleDisplayer =
  report_csv_format :: bool
  display_v :: "(string \<times> display_function) list"
  exclusive_display_v :: "exclusive_display_function list"

definition AddDisplayFunction :: "string \<Rightarrow> display_function \<Rightarrow> SampleDisplayer \<Rightarrow> SampleDisplayer" where
  "AddDisplayFunction header f d = d\<lparr>display_v := display_v d @ [(header, f)]\<rparr>"

definition AddExclusiveDisplayFunction ::
  "exclusive_display_function \<Rightarrow> SampleDisplayer \<Rightarrow> SampleDisplayer"
where
  "AddExclusiveDisplayFunction f d = d\<lparr>exclusive_display_v := exclusive_display_v d @ [f]\<rparr>"

datatype sort_compare_function =
    CompareTotalPeriod
  | CompareCallGraphDuplicated
  | ComparePeriod
  | Compare compare_function

record SampleTreeBuilderOptions =
  comparator :: "compare_function list"
  comm_filter :: "string set"
  dso_filter :: "string set"
  symbol_filter :: "string set"
  cpu_filter :: "u32 set"
  pid_filter :: "u32 set"
  tid_filter :: "u32 set"
  use_branch_address :: bool
  accumulate_callchain :: bool
  build_callchain :: bool
  use_caller_as_callchain_root :: bool
  trace_offcpu :: bool

text \<open>
  \<open>thread_tree\<close> of the options points to the thread tree of the command; the builders
  receive that tree with every call instead.
\<close>

definition CreateSampleTreeBuilder :: "SampleTreeBuilderOptions \<Rightarrow> ReportCmdSampleTreeBuilder" where
  "CreateSampleTreeBuilder opts =
     \<lparr>kind = (if trace_offcpu opts then TimestampSampleTreeBuilder else EventCountSampleTreeBuilder),
      sample_comparator' = comparator opts,
      sample_set' = [],
      builder_use_branch_address' = use_branch_address opts,
      builder_accumulate_callchain' = accumulate_callchain opts,
      builder_build_callchain' = build_callchain opts,
      builder_use_caller_as_callchain_root' = use_caller_as_callchain_root opts,
      cpu_filter' = cpu_filter opts,
      pid_filter' = pid_filter opts,
      tid_filter' = tid_filter opts,
      comm_filter' = comm_filter opts,
      dso_filter' = dso_filter opts,
      symbol_filter' = symbol_filter opts,
      total_samples' = 0,
      total_period' = 0,
      total_error_callchains' = 0,
      event_name' = [],
      next_sample_cache' = Map.empty\<rparr>"

definition SetEventName :: "string \<Rightarrow> ReportCmdSampleTreeBuilder \<Rightarrow> ReportCmdSampleTreeBuilder" where
  "SetEventName n b = b\<lparr>event_name' := n\<rparr>"

record SymbolizerConfig =
  kallsyms :: "string option"
  demangle :: bool
  show_ip_for_unknown_symbol :: bool
  symfs_dir :: "string option"
  vmlinux :: "string option"

text \<open>
  The settings that \<^verbatim>\<open>ParseOptions\<close> hands to \<^verbatim>\<open>Dso\<close> and to the thread tree.
\<close>

record ReportCommand =
  record_filename' :: string
  record_file_arch' :: ArchType
  event_attrs' :: "EventAttrWithName list"
  thread_tree' :: ThreadTree
  symbolizer' :: SymbolizerConfig
  sample_tree' :: "SampleTree list"
  sample_tree_builder_options' :: SampleTreeBuilderOptions
  sample_tree_builder' :: "ReportCmdSampleTreeBuilder list"
  sample_tree_sorter' :: "sort_compare_function list"
  sample_tree_displayer' :: SampleDisplayer
  use_branch_address' :: bool
  record_cmdline' :: string
  system_wide_collection' :: bool
  accumulate_callchain' :: bool
  print_callgraph' :: bool
  callgraph_show_callee' :: bool
  callgraph_max_stack' :: u32
  callgraph_percent_limit' :: real
  raw_period' :: bool
  brief_callgraph' :: bool
  trace_offcpu' :: bool
  sched_switch_attr_id' :: nat
  report_csv' :: bool
  report_filename' :: string

text \<open>
  What the command calls outside this file: libbase, \<^verbatim>\<open>utils.h\<close>, \<^verbatim>\<open>dso.h\<close>,
  \<^verbatim>\<open>event_type.h\<close>, \<^verbatim>\<open>record_file.h\<close>, \<^verbatim>\<open>thread_tree.h\<close>, \<^verbatim>\<open>tracing.h\<close>, the sorter of
  \<^verbatim>\<open>sample_tree.h\<close> and the C library's file functions.
\<close>

record Environment =
  PreprocessOptions :: "string list \<Rightarrow> OptionValueMap option"
  GetCpusFromString :: "string \<Rightarrow> u32 set option"
  GetTidsFromString :: "string \<Rightarrow> u32 set option"
  ReadFileToString :: "string \<Rightarrow> string option"
  SetSymFsDir :: "string \<Rightarrow> bool"
  GetBuildArch :: ArchType
  GetArchType :: "string \<Rightarrow> ArchType"
  CreateInstance :: "string \<Rightarrow> RecordFileReader option"
  GetEventNameByAttr :: "perf_event_attr \<Rightarrow> string"
  InitialThreadTree :: ThreadTree
  LoadBuildIdAndFileFeatures :: "RecordFileReader \<Rightarrow> ThreadTree \<Rightarrow> ThreadTree"
  ThreadTree_Update :: "ThreadTree \<Rightarrow> Record \<Rightarrow> ThreadTree"
  GetTracingEventNameHavingId :: "string \<Rightarrow> u64 \<Rightarrow> string"
  Sort :: "sort_compare_function list \<Rightarrow> SampleEntry list \<Rightarrow> bool \<Rightarrow> SampleEntry list"
  uint_value_in_range :: "nat \<Rightarrow> bool"
  double_value_in_range :: "real \<Rightarrow> bool"
  fopen_succeeds :: "string \<Rightarrow> bool"
  ferror_after_print :: bool

text \<open>
  \<open>uint_value_in_range\<close> and \<open>double_value_in_range\<close> are the range checks of
  \<^verbatim>\<open>PullUintValue\<close> for \<^verbatim>\<open>--max-stack\<close> and of \<^verbatim>\<open>PullDoubleValue\<close> for
  \<^verbatim>\<open>--percent-limit\<close>.
\<close>

definition SampleTreeBuilderOptions_init :: SampleTreeBuilderOptions where
  "SampleTreeBuilderOptions_init =
     \<lparr>comparator = [], comm_filter = {}, dso_filter = {}, symbol_filter = {},
      cpu_filter = {}, pid_filter = {}, tid_filter = {},
      use_branch_address = False, accumulate_callchain = False, build_callchain = False,
      use_caller_as_callchain_root = False, trace_offcpu = False\<rparr>"

definition ReportCommand_init :: "Environment \<Rightarrow> ReportCommand" where
  "ReportCommand_init env =
     \<lparr>record_filename' = ''perf.data'',
      record_file_arch' = GetBuildArch env,
      event_attrs' = [],
      thread_tree' = InitialThreadTree env,
      symbolizer' = \<lparr>kallsyms = None, demangle = True, show_ip_for_unknown_symbol = False,
                      symfs_dir = None, vmlinux = None\<rparr>,
      sample_tree' = [],
      sample_tree_builder_options' = SampleTreeBuilderOptions_init,
      sample_tree_builder' = [],
      sample_tree_sorter' = [],
      sample_tree_displayer' = \<lparr>report_csv_format = False, display_v = [], exclusive_display_v = []\<rparr>,
      use_branch_address' = False,
      record_cmdline' = [],
      system_wide_collection' = False,
      accumulate_callchain' = False,
      print_callgraph' = False,
      callgraph_show_callee' = False,
      callgraph_max_stack' = 4294967295,
      callgraph_percent_limit' = 0,
      raw_period' = False,
      brief_callgraph' = True,
      trace_offcpu' = False,
      sched_switch_attr_id' = 0,
      report_csv' = False,
      report_filename' = []\<rparr>"

subsection \<open>Option parsing\<close>

fun Split :: "string \<Rightarrow> char \<Rightarrow> string list" where
  "Split [] d = [[]]"
| "Split (c # cs) d =
     (if c = d then [] # Split cs d
      else (case Split cs d of [] \<Rightarrow> [[c]] | w # ws \<Rightarrow> (c # w) # ws))"


definition insert_split :: "char \<Rightarrow> string list \<Rightarrow> string set \<Rightarrow> string set" where
  "insert_split d values acc = fold (\<lambda>v acc1. acc1 \<union> set (Split v d)) values acc"

fun insert_parsed :: "(string \<Rightarrow> u32 set option) \<Rightarrow> string list \<Rightarrow> u32 set \<Rightarrow> u32 set option" where
  "insert_parsed parse [] acc = Some acc"
| "insert_parsed parse (v # vs) acc =
     (case parse v of None \<Rightarrow> None | Some ids \<Rightarrow> insert_parsed parse vs (acc \<union> ids))"

definition branch_sort_keys :: "string set" where
  "branch_sort_keys = {''dso_from'', ''dso_to'', ''symbol_from'', ''symbol_to''}"

text \<open>The loop of \<^verbatim>\<open>BuildSampleComparatorAndDisplayer\<close> over the sort keys.\<close>

fun add_sort_keys ::
  "bool \<Rightarrow> string list \<Rightarrow> compare_function list \<Rightarrow> SampleDisplayer \<Rightarrow>
     error + (compare_function list \<times> SampleDisplayer)"
where
  "add_sort_keys ub [] c d = Inr (c, d)"
| "add_sort_keys ub (key # keys) c d =
     (if \<not> ub \<and> key \<in> branch_sort_keys
      then Inl (ReturnFalse (''sort key '' @ key @ '' can only be used with -b option.''))
      else if key = ''pid''
        then add_sort_keys ub keys (c @ [ComparePid]) (AddDisplayFunction ''Pid'' DisplayPid d)
      else if key = ''tid''
        then add_sort_keys ub keys (c @ [CompareTid]) (AddDisplayFunction ''Tid'' DisplayTid d)
      else if key = ''comm''
        then add_sort_keys ub keys (c @ [CompareComm]) (AddDisplayFunction ''Command'' DisplayComm d)
      else if key = ''dso''
        then add_sort_keys ub keys (c @ [CompareDso]) (AddDisplayFunction ''Shared Object'' DisplayDso d)
      else if key = ''symbol''
        then add_sort_keys ub keys (c @ [CompareSymbol]) (AddDisplayFunction ''Symbol'' DisplaySymbol d)
      else if key = ''vaddr_in_file''
        then add_sort_keys ub keys (c @ [CompareVaddrInFile])
               (AddDisplayFunction ''VaddrInFile'' DisplayVaddrInFile d)
      else if key = ''dso_from''
        then add_sort_keys ub keys (c @ [CompareDsoFrom])
               (AddDisplayFunction ''Source Shared Object'' DisplayDsoFrom d)
      else if key = ''dso_to''
        then add_sort_keys ub keys (c @ [CompareDso])
               (AddDisplayFunction ''Target Shared Object'' DisplayDso d)
      else if key = ''symbol_from''
        then add_sort_keys ub keys (c @ [CompareSymbolFrom])
               (AddDisplayFunction ''Source Symbol'' DisplaySymbolFrom d)
      else if key = ''symbol_to''
        then add_sort_keys ub keys (c @ [CompareSymbol])
               (AddDisplayFunction ''Target Symbol'' DisplaySymbol d)
      else Inl (ReturnFalse (''Unknown sort key: '' @ key)))"

definition BuildSampleComparatorAndDisplayer ::
  "bool \<Rightarrow> string list \<Rightarrow> ReportCommand \<Rightarrow> error + ReportCommand"
where
  "BuildSampleComparatorAndDisplayer print_sample_count sort_keys cmd =
     (let d0 = \<lparr>report_csv_format = report_csv' cmd, display_v = [], exclusive_display_v = []\<rparr>;
          d1 = (if accumulate_callchain' cmd
                then (if raw_period' cmd
                      then AddDisplayFunction ''Self'' DisplaySelfPeriod
                             (AddDisplayFunction ''Children'' DisplayAccumulatedPeriod d0)
                      else AddDisplayFunction ''Self'' DisplaySelfOverhead
                             (AddDisplayFunction ''Children'' DisplayAccumulatedOverhead d0))
                else (if raw_period' cmd
                      then AddDisplayFunction ''Overhead'' DisplaySelfPeriod d0
                      else AddDisplayFunction ''Overhead'' DisplaySelfOverhead d0));
          d2 = (if print_sample_count then AddDisplayFunction ''Sample'' DisplaySampleCount d1 else d1)
      in case add_sort_keys (use_branch_address' cmd) sort_keys [] d2 of
           Inl e \<Rightarrow> Inl e
         | Inr (c, d3) \<Rightarrow>
             (let d4 = (if report_csv' cmd
                        then AddDisplayFunction ''EventName'' DisplayEventName
                               (if accumulate_callchain' cmd
                                then AddDisplayFunction ''SelfEventCount'' DisplaySelfPeriod
                                       (AddDisplayFunction ''AccEventCount'' DisplayAccumulatedPeriod d3)
                                else AddDisplayFunction ''EventCount'' DisplaySelfPeriod d3)
                        else d3);
                  has_symbol_key = (''symbol'' \<in> set sort_keys);
                  has_vaddr_in_file_key = (''vaddr_in_file'' \<in> set sort_keys);
                  d5 = (if print_callgraph' cmd \<and> has_symbol_key
                        then (if has_vaddr_in_file_key
                              then AddExclusiveDisplayFunction ReportCmdCallgraphDisplayerWithVaddrInFile d4
                              else AddExclusiveDisplayFunction
                                     (ReportCmdCallgraphDisplayer (callgraph_max_stack' cmd)
                                        (callgraph_percent_limit' cmd) (brief_callgraph' cmd)) d4)
                        else d4);
                  sort_comparator =
                    [CompareTotalPeriod]
                    @ (if print_callgraph' cmd then [CompareCallGraphDuplicated] else [])
                    @ [ComparePeriod] @ map Compare c
              in Inr (cmd\<lparr>sample_tree_builder_options' :=
                             (sample_tree_builder_options' cmd)\<lparr>comparator := c\<rparr>,
                           sample_tree_sorter' := sort_comparator,
                           sample_tree_displayer' := d5\<rparr>)))"

text \<open>The \<^verbatim>\<open>-g\<close> block of \<^verbatim>\<open>ParseOptions\<close>.\<close>

definition ParseOptions_g :: "string option option \<Rightarrow> ReportCommand \<Rightarrow> error + ReportCommand" where
  "ParseOptions_g v cmd =
     (case v of
        None \<Rightarrow> Inr cmd
      | Some str_value \<Rightarrow>
          (let cmd1 = cmd\<lparr>print_callgraph' := True, accumulate_callchain' := True\<rparr> in
           case str_value of
             None \<Rightarrow> Inr cmd1
           | Some s \<Rightarrow>
               if s = ''callee'' then Inr (cmd1\<lparr>callgraph_show_callee' := True\<rparr>)
               else if s = ''caller'' then Inr (cmd1\<lparr>callgraph_show_callee' := False\<rparr>)
               else Inl (ReturnFalse (''Unknown argument with -g option: '' @ s))))"

definition ParseOptions :: "Environment \<Rightarrow> string list \<Rightarrow> ReportCommand \<Rightarrow> error + ReportCommand" where
  "ParseOptions env args cmd0 =
     (case PreprocessOptions env args of
        None \<Rightarrow> Inl (ReturnFalse ''PreprocessOptions'')
      | Some options \<Rightarrow>
     (let o0 = sample_tree_builder_options' cmd0;
          o1 = o0\<lparr>comm_filter := insert_split CHR '','' (opt_comms options) (comm_filter o0)\<rparr>
      in case insert_parsed (GetCpusFromString env) (opt_cpu options) (cpu_filter o1) of
        None \<Rightarrow> Inl (ReturnFalse ''--cpu'')
      | Some cpus \<Rightarrow>
     (let o2 = o1\<lparr>cpu_filter := cpus,
                   dso_filter := insert_split CHR '','' (opt_dsos options) (dso_filter o1)\<rparr>;
          cmd1 = cmd0\<lparr>use_branch_address' := opt_b options,
                      accumulate_callchain' := opt_children options,
                      report_csv' := opt_csv options,
                      brief_callgraph' := (\<not> opt_full_callgraph options)\<rparr>
      in case ParseOptions_g (opt_g options) cmd1 of
        Inl e \<Rightarrow> Inl e
      | Inr cmd2 \<Rightarrow>
     (let cmd3 = (case opt_i options of
                    None \<Rightarrow> cmd2 | Some f \<Rightarrow> cmd2\<lparr>record_filename' := f\<rparr>)
      in case (case opt_kallsyms options of
                 None \<Rightarrow> Inr (symbolizer' cmd3)
               | Some f \<Rightarrow>
                   (case ReadFileToString env f of
                      None \<Rightarrow> Inl (ReturnFalse (''Can't read kernel symbols from '' @ f))
                    | Some k \<Rightarrow> Inr ((symbolizer' cmd3)\<lparr>kallsyms := Some k\<rparr>))) of
        Inl e \<Rightarrow> Inl e
      | Inr sy1 \<Rightarrow>
     (case (case opt_max_stack options of
              None \<Rightarrow> Inr (callgraph_max_stack' cmd3)
            | Some n \<Rightarrow>
                if uint_value_in_range env n then Inr (word_of_nat n)
                else Inl (ReturnFalse ''invalid --max-stack'')) of
        Inl e \<Rightarrow> Inl e
      | Inr max_stack \<Rightarrow>
     (let print_sample_count = opt_n options;
          sy2 = sy1\<lparr>demangle := (\<not> opt_no_demangle options),
                    show_ip_for_unknown_symbol :=
                      (if \<not> opt_no_show_ip options then True else show_ip_for_unknown_symbol sy1)\<rparr>;
          cmd4 = (case opt_o options of
                    None \<Rightarrow> cmd3 | Some f \<Rightarrow> cmd3\<lparr>report_filename' := f\<rparr>)
      in case (case opt_percent_limit options of
                 None \<Rightarrow> Inr (callgraph_percent_limit' cmd4)
               | Some x \<Rightarrow>
                   if double_value_in_range env x then Inr x
                   else Inl (ReturnFalse ''invalid --percent-limit'')) of
        Inl e \<Rightarrow> Inl e
      | Inr percent_limit \<Rightarrow>
     (case insert_parsed (GetTidsFromString env) (opt_pids options) (pid_filter o2) of
        None \<Rightarrow> Inl (ReturnFalse ''--pids'')
      | Some pids \<Rightarrow>
     (case insert_parsed (GetTidsFromString env) (opt_tids options) (tid_filter o2) of
        None \<Rightarrow> Inl (ReturnFalse ''--tids'')
      | Some tids \<Rightarrow>
     (let sort_keys = (case opt_sort options of
                         None \<Rightarrow> [''comm'', ''pid'', ''tid'', ''dso'', ''symbol'']
                       | Some v \<Rightarrow> Split v CHR '','');
          o3 = o2\<lparr>pid_filter := pids, tid_filter := tids,
                   symbol_filter := insert_split CHR '';'' (opt_symbols options) (symbol_filter o2)\<rparr>
      in case (case opt_symfs options of
                 None \<Rightarrow> Inr sy2
               | Some dir \<Rightarrow>
                   if SetSymFsDir env dir then Inr (sy2\<lparr>symfs_dir := Some dir\<rparr>)
                   else Inl (ReturnFalse ''SetSymFsDir'')) of
        Inl e \<Rightarrow> Inl e
      | Inr sy3 \<Rightarrow>
     (let sy4 = (case opt_vmlinux options of
                   None \<Rightarrow> sy3 | Some f \<Rightarrow> sy3\<lparr>vmlinux := Some f\<rparr>)
      in BuildSampleComparatorAndDisplayer print_sample_count sort_keys
           (cmd4\<lparr>callgraph_max_stack' := max_stack,
                  callgraph_percent_limit' := percent_limit,
                  raw_period' := opt_raw_period options,
                  symbolizer' := sy4,
                  sample_tree_builder_options' := o3\<rparr>)))))))))))"

subsection \<open>Reading the record file\<close>


text \<open>
  The search loop of \<^verbatim>\<open>ReadEventAttrFromRecordFile\<close>: the index of the first attribute
  named \<^verbatim>\<open>sched:sched_switch\<close>, or the number of attributes when there is none.
\<close>

fun find_sched_switch :: "EventAttrWithName list \<Rightarrow> nat" where
  "find_sched_switch [] = 0"
| "find_sched_switch (a # as) =
     (if name a = ''sched:sched_switch'' then 0 else Suc (find_sched_switch as))"


definition ProcessTracingData :: "Environment \<Rightarrow> string \<Rightarrow> ReportCommand \<Rightarrow> bool \<times> ReportCommand" where
  "ProcessTracingData env data cmd =
     (True,
      cmd\<lparr>event_attrs' :=
            map (\<lambda>a. if attr_type (attr a) = PERF_TYPE_TRACEPOINT
                     then a\<lparr>name := GetTracingEventNameHavingId env data (attr_config (attr a))\<rparr>
                     else a)
              (event_attrs' cmd)\<rparr>)"



subsection \<open>Ingestion\<close>

text \<open>
  The loop of \<^verbatim>\<open>ProcessSampleRecordInTraceOffCpuMode\<close> over the attribute indices: the
  record goes to every builder but the one of the sched\_switch attribute.
\<close>

fun broadcast_offcpu ::
  "ThreadTree \<Rightarrow> nat \<Rightarrow> SampleRecord \<Rightarrow> nat list \<Rightarrow> ReportCmdSampleTreeBuilder list \<Rightarrow>
     error + ReportCmdSampleTreeBuilder list"
where
  "broadcast_offcpu tt skip r [] bs = Inr bs"
| "broadcast_offcpu tt skip r (i # is) bs =
     (if i = skip then broadcast_offcpu tt skip r is bs
      else if i < length bs
      then (case ReportCmdProcessSampleRecord tt (bs ! i) r of
              Inl e \<Rightarrow> Inl e
            | Inr b \<Rightarrow> broadcast_offcpu tt skip r is (bs[i := b]))
      else Inl (OutOfRange ''sample_tree_builder_[i]''))"

definition ProcessSampleRecordInTraceOffCpuMode ::
  "ReportCommand \<Rightarrow> SampleRecord \<Rightarrow> nat \<Rightarrow> error + ReportCommand"
where
  "ProcessSampleRecordInTraceOffCpuMode cmd r attr_id =
     (if attr_id = sched_switch_attr_id' cmd
      then (case broadcast_offcpu (thread_tree' cmd) (sched_switch_attr_id' cmd) r
                   [0 ..< length (event_attrs' cmd)] (sample_tree_builder' cmd) of
              Inl e \<Rightarrow> Inl e
            | Inr bs \<Rightarrow> Inr (cmd\<lparr>sample_tree_builder' := bs\<rparr>))
      else if attr_id < length (sample_tree_builder' cmd)
      then (case ReportCmdProcessSampleRecord (thread_tree' cmd) (sample_tree_builder' cmd ! attr_id) r of
              Inl e \<Rightarrow> Inl e
            | Inr b \<Rightarrow> Inr (cmd\<lparr>sample_tree_builder' := (sample_tree_builder' cmd)[attr_id := b]\<rparr>))
      else Inl (OutOfRange ''sample_tree_builder_[attr_id]''))"

definition ProcessRecord :: "Environment \<Rightarrow> ReportCommand \<Rightarrow> Record \<Rightarrow> error + ReportCommand" where
  "ProcessRecord env cmd0 record =
     (let cmd = cmd0\<lparr>thread_tree' := ThreadTree_Update env (thread_tree' cmd0) record\<rparr> in
      case record of
        Sample attr_id r \<Rightarrow>
          if \<not> trace_offcpu' cmd
          then (if attr_id < length (sample_tree_builder' cmd)
                then (case ReportCmdProcessSampleRecord_ref (thread_tree' cmd)
                             (sample_tree_builder' cmd ! attr_id) r of
                        Inl e \<Rightarrow> Inl e
                      | Inr b \<Rightarrow>
                          Inr (cmd\<lparr>sample_tree_builder' := (sample_tree_builder' cmd)[attr_id := b]\<rparr>))
                else Inl (OutOfRange ''sample_tree_builder_[attr_id]''))
          else ProcessSampleRecordInTraceOffCpuMode cmd r attr_id
      | TracingData data \<Rightarrow>
          (let (ok, cmd1) = ProcessTracingData env data cmd in
           if \<not> ok then Inl (ReturnFalse ''ProcessTracingData'') else Inr cmd1)
      | OtherRecord t \<Rightarrow> Inr cmd)"

text \<open>\<^verbatim>\<open>ReadDataSection\<close> with \<open>ProcessRecord\<close> as its callback.\<close>

fun ReadDataSection :: "Environment \<Rightarrow> ReportCommand \<Rightarrow> Record list \<Rightarrow> error + ReportCommand" where
  "ReadDataSection env cmd [] = Inr cmd"
| "ReadDataSection env cmd (record # records) =
     (case ProcessRecord env cmd record of
        Inl e \<Rightarrow> Inl e
      | Inr cmd1 \<Rightarrow> ReadDataSection env cmd1 records)"

text \<open>
  \<open>ReadSampleTreeFromRecordFile\<close>: one builder per attribute, the data section through
  \<open>ProcessRecord\<close>, then one sorted sample tree per builder. The offline unwinder that a
  builder may own (\<^verbatim>\<open>GetUnwinder\<close>, \<^verbatim>\<open>LoadMetaInfo\<close>) is not represented: no builder
  function of the file reads it.
\<close>

definition ReadSampleTreeFromRecordFile ::
  "Environment \<Rightarrow> RecordFileReader \<Rightarrow> ReportCommand \<Rightarrow> error + ReportCommand"
where
  "ReadSampleTreeFromRecordFile env reader cmd =
     (let opts = (sample_tree_builder_options' cmd)
                   \<lparr>use_branch_address := use_branch_address' cmd,
                    accumulate_callchain := accumulate_callchain' cmd,
                    build_callchain := print_callgraph' cmd,
                    use_caller_as_callchain_root := (\<not> callgraph_show_callee' cmd),
                    trace_offcpu := trace_offcpu' cmd\<rparr>;
          cmd1 = cmd\<lparr>sample_tree_builder_options' := opts,
                     sample_tree_builder' :=
                       sample_tree_builder' cmd
                       @ map (\<lambda>a. SetEventName (name a) (CreateSampleTreeBuilder opts)) (event_attrs' cmd)\<rparr>
      in case ReadDataSection env cmd1 (DataSection reader) of
           Inl e \<Rightarrow> Inl e
         | Inr cmd2 \<Rightarrow>
             if \<not> DataSection_readable reader then Inl (ReturnFalse ''ReadDataSection'')
             else Inr (cmd2\<lparr>sample_tree' :=
                              sample_tree' cmd2
                              @ map (\<lambda>b. let t = GetSampleTree b in
                                         t\<lparr>samples := Sort env (sample_tree_sorter' cmd2) (samples t)
                                                          (print_callgraph' cmd2)\<rparr>)
                                  (sample_tree_builder' cmd2)\<rparr>))"

subsection \<open>Printing the report\<close>

datatype report_line =
    CmdlineLine string
  | ArchLine ArchType
  | BlankLine
  | EventLine string u32 u64
  | SamplesLine u64
  | ErrorCallchainsLine u64 u64
  | PeriodLine string u64
  | DisplaySamples SampleDisplayer "SampleEntry list" SampleTree

text \<open>
  What \<^verbatim>\<open>PrintReport\<close> writes through \<^verbatim>\<open>fprintf\<close>, one value per call.
  \<open>ErrorCallchainsLine n total\<close> is the line with the count \<open>n\<close> and the percentage
  \<^verbatim>\<open>n * 100.0 / total\<close>; \<open>DisplaySamples\<close> is the table that the displayer prints.
\<close>

definition PrintReportContext :: "ReportCommand \<Rightarrow> report_line list" where
  "PrintReportContext cmd =
     (if record_cmdline' cmd \<noteq> [] then [CmdlineLine (record_cmdline' cmd)] else [])
     @ [ArchLine (record_file_arch' cmd)]"

text \<open>One round of the loop of \<^verbatim>\<open>PrintReport\<close> over the event attributes.\<close>

definition print_event :: "ReportCommand \<Rightarrow> nat \<Rightarrow> report_line list" where
  "print_event cmd i =
     (if trace_offcpu' cmd \<and> i = sched_switch_attr_id' cmd then []
      else
        let a = event_attrs' cmd ! i;
            sample_tree = sample_tree' cmd ! i
        in (if i \<noteq> 0 then [BlankLine] else [])
           @ [EventLine (name a) (attr_type (attr a)) (attr_config (attr a)),
              SamplesLine (total_samples sample_tree)]
           @ (if total_error_callchains sample_tree \<noteq> 0
              then [ErrorCallchainsLine (total_error_callchains sample_tree) (total_samples sample_tree)]
              else [])
           @ [PeriodLine (if trace_offcpu' cmd then ''Time in ns'' else ''Event count'')
                (total_period sample_tree),
              DisplaySamples (sample_tree_displayer' cmd) (samples sample_tree) sample_tree])"

definition PrintReport :: "Environment \<Rightarrow> ReportCommand \<Rightarrow> error option \<times> report_line list" where
  "PrintReport env cmd =
     (if report_filename' cmd \<noteq> [] \<and> \<not> fopen_succeeds env (report_filename' cmd)
      then (Some (ReturnFalse (''failed to open file '' @ report_filename' cmd)), [])
      else
        let out = PrintReportContext cmd
                  @ concat (map (print_event cmd) [0 ..< length (event_attrs' cmd)])
        in if ferror_after_print env then (Some (ReturnFalse ''print report failed''), out)
           else (None, out))"

subsection \<open>The command\<close>


section \<open>Notions used in the statements\<close>

text \<open>
  The identity that a field comparator reads from an entry: two entries compare equal
  under a comparator exactly when they agree on the keys of its functions.
\<close>

fun compare_key :: "compare_function \<Rightarrow> SampleEntry \<Rightarrow> (u32 + string + u64 + string option)" where
  "compare_key ComparePid e = Inl (pid e)"
| "compare_key CompareTid e = Inl (tid e)"
| "compare_key CompareComm e = Inr (Inl (thread_comm e))"
| "compare_key CompareDso e = Inr (Inl (report_path (dso (map_entry e))))"
| "compare_key CompareSymbol e = Inr (Inl (demangled_name (symbol e)))"
| "compare_key CompareVaddrInFile e = Inr (Inr (Inl (vaddr_in_file e)))"
| "compare_key CompareDsoFrom e = Inr (Inr (Inr (dso_from_path e)))"
| "compare_key CompareSymbolFrom e = Inr (Inr (Inr (symbol_from_name e)))"

text \<open>The invariant of a sample set: no two entries compare equal.\<close>

definition no_equal_entries :: "compare_function list \<Rightarrow> SampleEntry list \<Rightarrow> bool" where
  "no_equal_entries cmp xs =
     (\<forall>i<length xs. \<forall>j<length xs. i \<noteq> j \<longrightarrow> \<not> IsSameSample cmp (xs ! i) (xs ! j))"

text \<open>Two states of a builder that differ at most in the sample set and the totals.\<close>

definition same_config :: "ReportCmdSampleTreeBuilder \<Rightarrow> ReportCmdSampleTreeBuilder \<Rightarrow> bool" where
  "same_config b b' =
     (kind b' = kind b \<and> sample_comparator' b' = sample_comparator' b
      \<and> builder_use_branch_address' b' = builder_use_branch_address' b
      \<and> builder_accumulate_callchain' b' = builder_accumulate_callchain' b
      \<and> builder_build_callchain' b' = builder_build_callchain' b
      \<and> builder_use_caller_as_callchain_root' b' = builder_use_caller_as_callchain_root' b
      \<and> cpu_filter' b' = cpu_filter' b \<and> pid_filter' b' = pid_filter' b
      \<and> tid_filter' b' = tid_filter' b \<and> comm_filter' b' = comm_filter' b
      \<and> dso_filter' b' = dso_filter' b \<and> symbol_filter' b' = symbol_filter' b
      \<and> event_name' b' = event_name' b \<and> next_sample_cache' b' = next_sample_cache' b)"

definition with_cache ::
  "(u32 \<rightharpoonup> SampleRecord) \<Rightarrow> ReportCmdSampleTreeBuilder \<Rightarrow> ReportCmdSampleTreeBuilder"
where
  "with_cache c b = b\<lparr>next_sample_cache' := c\<rparr>"

text \<open>The totals of a builder agree with the sums over its sample set.\<close>

definition summary_matches :: "ReportCmdSampleTreeBuilder \<Rightarrow> bool" where
  "summary_matches b =
     (sum_list (map period (sample_set' b)) = total_period' b
      \<and> sum_list (map sample_count (sample_set' b)) = total_samples' b)"

text \<open>
  The invariant of the cache of a \<open>TimestampSampleTreeBuilder\<close>: a record is stored under
  its own thread id.
\<close>

definition cache_keyed_by_tid :: "ReportCmdSampleTreeBuilder \<Rightarrow> bool" where
  "cache_keyed_by_tid b = (\<forall>t p. next_sample_cache' b t = Some p \<longrightarrow> r_tid p = t)"

text \<open>A frame of a call chain whose map has an unknown DSO.\<close>

definition frame_unknown :: "ThreadTree \<Rightarrow> ThreadEntry \<Rightarrow> u64 \<times> bool \<Rightarrow> bool" where
  "frame_unknown tt thread f = IsUnknownDso tt (dso (FindMap tt thread (fst f) (snd f)))"

text \<open>
  The calls of \<open>ReportCmdProcessSampleRecord\<close> that one builder receives during
  ingestion, each with the thread tree of that moment.
\<close>

fun ReportCmdProcessSampleRecords ::
  "ReportCmdSampleTreeBuilder \<Rightarrow> (ThreadTree \<times> SampleRecord) list \<Rightarrow> error + ReportCmdSampleTreeBuilder"
where
  "ReportCmdProcessSampleRecords b [] = Inr b"
| "ReportCmdProcessSampleRecords b ((tt, r) # rs) =
     (case ReportCmdProcessSampleRecord tt b r of
        Inl e \<Rightarrow> Inl e
      | Inr b1 \<Rightarrow> ReportCmdProcessSampleRecords b1 rs)"

text \<open>The last record of thread \<open>t\<close> among the records of such a sequence.\<close>

definition last_with_tid :: "u32 \<Rightarrow> (ThreadTree \<times> SampleRecord) list \<Rightarrow> SampleRecord option" where
  "last_with_tid t rs =
     (case filter (\<lambda>x. r_tid (snd x) = t) rs of [] \<Rightarrow> None | y # ys \<Rightarrow> Some (snd (last (y # ys))))"


section \<open>Concrete inputs\<close>

definition example_thread_tree :: ThreadTree where
  "example_thread_tree =
     \<lparr>FindThreadOrNew = (\<lambda>p t. \<lparr>thread_pid = p, thread_tid = t, comm = ''main''\<rparr>),
      FindMap = (\<lambda>th ip k. if ip < 4096
                  then \<lparr>start_addr = 0, dso = \<lparr>dso_id = 0, report_path = ''unknown''\<rparr>\<rparr>
                  else \<lparr>start_addr = 4096, dso = \<lparr>dso_id = 1, report_path = ''a.so''\<rparr>\<rparr>),
      FindMapAnywhere = (\<lambda>th ip. if ip < 4096
                  then \<lparr>start_addr = 0, dso = \<lparr>dso_id = 0, report_path = ''unknown''\<rparr>\<rparr>
                  else \<lparr>start_addr = 4096, dso = \<lparr>dso_id = 1, report_path = ''a.so''\<rparr>\<rparr>),
      FindSymbol = (\<lambda>m ip. (\<lparr>symbol_addr = ip, demangled_name = ''f''\<rparr>, ip - start_addr m)),
      IsUnknownDso = (\<lambda>d. dso_id d = 0)\<rparr>"

definition example_record :: "u32 \<Rightarrow> u64 \<Rightarrow> u64 \<Rightarrow> SampleRecord" where
  "example_record t tm p =
     \<lparr>r_time = tm, r_period = p, r_pid = 1, r_tid = t, r_ip = 8192, r_cpu = 0,
      r_in_kernel = False, r_callchain = [],
      r_branch_stack = [\<lparr>item_from = 8192, item_to = 8200, item_flags = 0\<rparr>]\<rparr>"

definition example_builder :: "builder_kind \<Rightarrow> bool \<Rightarrow> ReportCmdSampleTreeBuilder" where
  "example_builder k branch =
     \<lparr>kind = k,
      sample_comparator' = [CompareComm, ComparePid, CompareTid, CompareDso, CompareSymbol],
      sample_set' = [],
      builder_use_branch_address' = branch,
      builder_accumulate_callchain' = False,
      builder_build_callchain' = False,
      builder_use_caller_as_callchain_root' = True,
      cpu_filter' = {}, pid_filter' = {}, tid_filter' = {},
      comm_filter' = {}, dso_filter' = {}, symbol_filter' = {},
      total_samples' = 0, total_period' = 0, total_error_callchains' = 0,
      event_name' = ''cpu-clock'',
      next_sample_cache' = Map.empty\<rparr>"

definition example_options :: OptionValueMap where
  "example_options =
     \<lparr>opt_b = False, opt_children = False, opt_comms = [], opt_cpu = [], opt_csv = False,
      opt_dsos = [], opt_full_callgraph = False, opt_g = None, opt_i = None,
      opt_kallsyms = None, opt_max_stack = None, opt_n = False, opt_no_demangle = False,
      opt_no_show_ip = False, opt_o = None, opt_percent_limit = None, opt_pids = [],
      opt_tids = [], opt_raw_period = False, opt_sort = None, opt_symbols = [],
      opt_symfs = None, opt_vmlinux = None\<rparr>"

definition example_reader :: "bool \<Rightarrow> RecordFileReader" where
  "example_reader with_sched_switch =
     \<lparr>GetMetaInfoFeature = [''trace_offcpu'' \<mapsto> ''true''],
      AttrSection =
        (if with_sched_switch
         then [\<lparr>attr_type = 2, attr_config = 1, attr_sample_type = 0\<rparr>] else [])
        @ [\<lparr>attr_type = 1, attr_config = 0, attr_sample_type = 0\<rparr>],
      ReadFeatureString_ARCH = [],
      ReadCmdlineFeature = [],
      FeatureSection_TRACING_DATA = None,
      DataSection =
        (if with_sched_switch
         then [Sample 0 (example_record 7 1000 1), Sample 0 (example_record 7 1300 1)] else []),
      DataSection_readable = True\<rparr>"

definition example_env :: Environment where
  "example_env =
     \<lparr>PreprocessOptions =
        (\<lambda>args. if args = [] then Some example_options
                else if args = [''-g''] then Some (example_options\<lparr>opt_g := Some None\<rparr>)
                else if args = [''-i'', ''nosched.data'']
                  then Some (example_options\<lparr>opt_i := Some ''nosched.data''\<rparr>)
                else if args = [''--sort'', ''foo'']
                  then Some (example_options\<lparr>opt_sort := Some ''foo''\<rparr>)
                else None),
      GetCpusFromString = (\<lambda>s. None),
      GetTidsFromString = (\<lambda>s. None),
      ReadFileToString = (\<lambda>s. None),
      SetSymFsDir = (\<lambda>s. True),
      GetBuildArch = ARCH_ARM64,
      GetArchType = (\<lambda>s. ARCH_ARM64),
      CreateInstance =
        (\<lambda>f. if f = ''perf.data'' then Some (example_reader True)
              else if f = ''nosched.data'' then Some (example_reader False)
              else None),
      GetEventNameByAttr = (\<lambda>a. if attr_type a = 2 then ''sched:sched_switch'' else ''cpu-clock''),
      InitialThreadTree = example_thread_tree,
      LoadBuildIdAndFileFeatures = (\<lambda>reader tt. tt),
      ThreadTree_Update = (\<lambda>tt record. tt),
      GetTracingEventNameHavingId = (\<lambda>data config. ''sched:sched_switch''),
      Sort = (\<lambda>c xs g. xs),
      uint_value_in_range = (\<lambda>n. n < 4294967296),
      double_value_in_range = (\<lambda>x. 0 \<le> x),
      fopen_succeeds = (\<lambda>f. True),
      ferror_after_print = False\<rparr>"

definition example_command :: ReportCommand where
  "example_command =
     (ReportCommand_init example_env)
       \<lparr>event_attrs' :=
          [\<lparr>attr = \<lparr>attr_type = 2, attr_config = 1, attr_sample_type = 0\<rparr>, name = ''sched:sched_switch''\<rparr>,
           \<lparr>attr = \<lparr>attr_type = 1, attr_config = 0, attr_sample_type = 0\<rparr>, name = ''cpu-clock''\<rparr>],
        sample_tree_builder_options' := SampleTreeBuilderOptions_init\<lparr>comparator := [CompareTid]\<rparr>,
        trace_offcpu' := True,
        sched_switch_attr_id' := 0\<rparr>"

definition example_entry :: "u64 \<Rightarrow> SampleEntry" where
  "example_entry p = CreateSample_entry example_thread_tree (example_record 1 0 p) False p"

definition example_offcpu_command :: ReportCommand where
  "example_offcpu_command =
     example_command
       \<lparr>sample_tree_builder' :=
          [example_builder TimestampSampleTreeBuilder False,
           example_builder TimestampSampleTreeBuilder False]\<rparr>"

definition example_print_command :: "u64 \<Rightarrow> ReportCommand" where
  "example_print_command n =
     example_command
       \<lparr>sample_tree' :=
          [\<lparr>samples = [], total_samples = 0, total_period = 0, total_error_callchains = 0,
            event_name = ''sched:sched_switch''\<rparr>,
           \<lparr>samples = [], total_samples = 4, total_period = 400, total_error_callchains = n,
            event_name = ''cpu-clock''\<rparr>]\<rparr>"

section \<open>Lemmas\<close>

lemma same_config_refl: "same_config b b"
  by (simp add: same_config_def)

lemma same_config_trans:
  "same_config a b \<Longrightarrow> same_config b c \<Longrightarrow> same_config a c"
  by (simp add: same_config_def)

lemma FilterSample_cong: "same_config b b' \<Longrightarrow> FilterSample b' s = FilterSample b s"
  by (simp add: same_config_def FilterSample_def)

lemma InsertSample_config: "InsertSample b s = (b', res) \<Longrightarrow> same_config b b'"
  by (auto simp: InsertSample_def UpdateSummary_def same_config_def Let_def split: if_splits option.splits)

lemma InsertCallChainSample_config: "InsertCallChainSample b s ch = (b', res) \<Longrightarrow> same_config b b'"
  by (auto simp: InsertCallChainSample_def same_config_def split: if_splits option.splits)

lemma CreateCallChainSample_config:
  "CreateCallChainSample tt b th s ip k ch acc = (b', res) \<Longrightarrow> same_config b b'"
  by (auto simp: CreateCallChainSample_def Let_def same_config_def split: if_splits dest!: InsertCallChainSample_config)

lemma accumulate_frames_config:
  "accumulate_frames tt b th si fs ch acc = (b', ch') \<Longrightarrow> same_config b b'"
proof (induction fs arbitrary: b ch)
  case Nil
  then show ?case by (simp add: same_config_refl)
next
  case (Cons f fs)
  obtain ip k where f: "f = (ip, k)" by (cases f)
  obtain b1 res where c: "CreateCallChainSample tt b th (sample_set' b ! si) ip k ch acc = (b1, res)"
    by (cases "CreateCallChainSample tt b th (sample_set' b ! si) ip k ch acc")
  have s1: "same_config b b1" using c by (rule CreateCallChainSample_config)
  show ?case
  proof (cases res)
    case None
    with Cons.prems f c s1 show ?thesis by simp
  next
    case (Some ci)
    with Cons.prems f c have "accumulate_frames tt b1 th si fs (ch @ [ci]) acc = (b', ch')" by simp
    then have "same_config b1 b'" by (rule Cons.IH)
    with s1 show ?thesis by (rule same_config_trans)
  qed
qed

lemma InsertCallChainForSample_config: "same_config b (InsertCallChainForSample b si fr acc)"
  by (simp add: InsertCallChainForSample_def Let_def same_config_def)

lemma fold_branch_config:
  "same_config b (fold (\<lambda>item b1. fst (CreateBranchSample tt b1 r item)) items b)"
proof (induction items arbitrary: b)
  case Nil
  show ?case by (simp add: same_config_refl)
next
  case (Cons i items)
  have "same_config b (fst (CreateBranchSample tt b r i))"
    by (cases "CreateBranchSample tt b r i") (auto simp: CreateBranchSample_def dest: InsertSample_config)
  then show ?case using Cons.IH same_config_trans by fastforce
qed

lemma CreateSample_config:
  "CreateSample tt b r k = Inr (b', res, acc) \<Longrightarrow> same_config b b'"
  by (auto simp: CreateSample_def split: sum.splits prod.splits dest: InsertSample_config)

lemma ProcessSampleRecord_config:
  assumes "ProcessSampleRecord tt b r = Inr b'"
  shows "same_config b b'"
proof (cases "builder_use_branch_address' b")
  case True
  with assms show ?thesis by (auto simp: ProcessSampleRecord_def fold_branch_config)
next
  case False
  with assms obtain b1 res acc where cs: "CreateSample tt b r (r_in_kernel r) = Inr (b1, res, acc)"
    by (auto simp: ProcessSampleRecord_def split: sum.splits)
  have s1: "same_config b b1" using cs by (rule CreateSample_config)
  show ?thesis
  proof (cases res)
    case None
    with assms False cs s1 show ?thesis by (simp add: ProcessSampleRecord_def)
  next
    case (Some si)
    show ?thesis
    proof (cases "builder_accumulate_callchain' b1")
      case False
      with assms \<open>\<not> builder_use_branch_address' b\<close> cs s1 Some show ?thesis
        by (simp add: ProcessSampleRecord_def)
    next
      case True
      obtain b2 ch where af: "accumulate_frames tt b1 (GetThreadOfSample tt (sample_set' b1 ! si)) si
          (r_callchain r) [si] acc = (b2, ch)"
        by (cases "accumulate_frames tt b1 (GetThreadOfSample tt (sample_set' b1 ! si)) si
          (r_callchain r) [si] acc")
      have s2: "same_config b1 b2" using af by (rule accumulate_frames_config)
      have "b' = (if builder_build_callchain' b2 then InsertCallChainForSample b2 si (tl ch) acc else b2)"
        using assms \<open>\<not> builder_use_branch_address' b\<close> cs Some True af
        by (simp add: ProcessSampleRecord_def Let_def split: if_splits)
      then have "same_config b2 b'"
        by (simp add: same_config_refl InsertCallChainForSample_config)
      with s1 s2 show ?thesis by (blast intro: same_config_trans)
    qed
  qed
qed

lemma compare_string_0_iff: "compare_string a b = 0 \<longleftrightarrow> a = b"
  by (induction a b rule: compare_string.induct) auto

lemma compare_value_0_iff: "compare_value a b = 0 \<longleftrightarrow> a = b"
  by (simp add: compare_value_def)

lemma compare_optional_string_0_iff: "compare_optional_string a b = 0 \<longleftrightarrow> a = b"
  by (induction a b rule: compare_optional_string.induct) (auto simp: compare_string_0_iff)

lemma apply_compare_0_iff: "apply_compare f a b = 0 \<longleftrightarrow> compare_key f a = compare_key f b"
  by (cases f)
    (auto simp: compare_string_0_iff compare_value_0_iff compare_optional_string_0_iff
          intro: signed_word_eqI word_uint_eqI)

lemma compare_samples_0_iff:
  "compare_samples cmp a b = 0 \<longleftrightarrow> (\<forall>f\<in>set cmp. compare_key f a = compare_key f b)"
  by (induction cmp) (auto simp: Let_def apply_compare_0_iff)

lemma IsSameSample_iff:
  "IsSameSample cmp a b \<longleftrightarrow> (\<forall>f\<in>set cmp. compare_key f a = compare_key f b)"
  by (simp add: IsSameSample_def compare_samples_0_iff)

lemma IsSameSample_refl: "IsSameSample cmp a a"
  by (simp add: IsSameSample_iff)

lemma IsSameSample_sym: "IsSameSample cmp a b \<Longrightarrow> IsSameSample cmp b a"
  by (simp add: IsSameSample_iff)

lemma IsSameSample_trans: "IsSameSample cmp a b \<Longrightarrow> IsSameSample cmp b c \<Longrightarrow> IsSameSample cmp a c"
  by (simp add: IsSameSample_iff)

lemma compare_key_MergeSample: "compare_key f (MergeSample a s) = compare_key f a"
  by (cases f) (simp_all add: MergeSample_def dso_from_path_def symbol_from_name_def)

lemma IsSameSample_MergeSample: "IsSameSample cmp (MergeSample a s) x = IsSameSample cmp a x"
  by (simp add: IsSameSample_iff compare_key_MergeSample)

lemma find_sample_Some:
  "find_sample cmp xs s = Some i \<Longrightarrow>
     i < length xs \<and> IsSameSample cmp (xs ! i) s \<and> (\<forall>j<i. \<not> IsSameSample cmp (xs ! j) s)"
proof (induction xs arbitrary: i)
  case Nil
  then show ?case by simp
next
  case (Cons e es)
  show ?case
  proof (cases "IsSameSample cmp e s")
    case True
    with Cons.prems show ?thesis by simp
  next
    case False
    with Cons.prems obtain k where k: "find_sample cmp es s = Some k" "i = Suc k" by auto
    from Cons.IH [OF k(1)] False k(2) show ?thesis by (auto simp: less_Suc_eq_0_disj)
  qed
qed

lemma find_sample_None:
  "find_sample cmp xs s = None \<longleftrightarrow> (\<forall>e\<in>set xs. \<not> IsSameSample cmp e s)"
  by (induction xs) auto

lemma find_sample_unique:
  assumes "no_equal_entries cmp xs" "i < length xs" "IsSameSample cmp (xs ! i) s"
  shows "find_sample cmp xs s = Some i"
proof -
  from assms(2,3) have "find_sample cmp xs s \<noteq> None"
    by (auto simp: find_sample_None)
  then obtain k where k: "find_sample cmp xs s = Some k" by auto
  from find_sample_Some [OF k] have kl: "k < length xs" and ks: "IsSameSample cmp (xs ! k) s" by auto
  have "IsSameSample cmp (xs ! i) (xs ! k)"
    using assms(3) ks by (blast intro: IsSameSample_trans IsSameSample_sym)
  with assms(1,2) kl have "i = k" unfolding no_equal_entries_def by blast
  with k show ?thesis by simp
qed

lemma no_equal_entries_append:
  assumes "no_equal_entries cmp xs" "\<forall>e\<in>set xs. \<not> IsSameSample cmp e s"
  shows "no_equal_entries cmp (xs @ [s])"
  unfolding no_equal_entries_def
proof (intro allI impI)
  fix i j assume i: "i < length (xs @ [s])" and j: "j < length (xs @ [s])" and ne: "i \<noteq> j"
  show "\<not> IsSameSample cmp ((xs @ [s]) ! i) ((xs @ [s]) ! j)"
  proof (cases "i < length xs")
    case il: True
    show ?thesis
    proof (cases "j < length xs")
      case True
      with il ne assms(1) show ?thesis by (simp add: no_equal_entries_def nth_append)
    next
      case False
      with j have "j = length xs" by simp
      with il assms(2) show ?thesis by (simp add: nth_append)
    qed
  next
    case False
    with i have ie: "i = length xs" by simp
    with ne j have jl: "j < length xs" by simp
    with assms(2) have "\<not> IsSameSample cmp (xs ! j) s" by simp
    then have "\<not> IsSameSample cmp s (xs ! j)" using IsSameSample_sym by blast
    with ie jl show ?thesis by (simp add: nth_append)
  qed
qed

lemma no_equal_entries_merge:
  assumes "no_equal_entries cmp xs" "i < length xs"
  shows "no_equal_entries cmp (xs[i := MergeSample (xs ! i) s])"
proof -
  have key: "\<And>k f. k < length xs \<Longrightarrow>
      compare_key f ((xs[i := MergeSample (xs ! i) s]) ! k) = compare_key f (xs ! k)"
    using assms(2) by (simp add: nth_list_update compare_key_MergeSample)
  show ?thesis
    using assms(1) unfolding no_equal_entries_def IsSameSample_iff
    by (simp add: key)
qed

lemma InsertSample_no_equal_entries:
  assumes "no_equal_entries (sample_comparator' b) (sample_set' b)" "InsertSample b s = (b', res)"
  shows "no_equal_entries (sample_comparator' b') (sample_set' b')"
proof (cases "FilterSample b s")
  case False
  with assms show ?thesis by (simp add: InsertSample_def)
next
  case True
  show ?thesis
  proof (cases "find_sample (sample_comparator' b) (sample_set' b) s")
    case None
    then have "\<forall>e\<in>set (sample_set' b). \<not> IsSameSample (sample_comparator' b) e s"
      by (simp add: find_sample_None)
    with assms(1) have "no_equal_entries (sample_comparator' b) (sample_set' b @ [s])"
      by (rule no_equal_entries_append)
    with assms(2) True None show ?thesis
      by (auto simp: InsertSample_def UpdateSummary_def Let_def)
  next
    case (Some i)
    from find_sample_Some [OF Some] have "i < length (sample_set' b)" by simp
    with assms(1) have "no_equal_entries (sample_comparator' b)
        ((sample_set' b)[i := MergeSample (sample_set' b ! i) s])"
      by (rule no_equal_entries_merge)
    with assms(2) True Some show ?thesis
      by (auto simp: InsertSample_def UpdateSummary_def Let_def)
  qed
qed

lemma sum_list_map_update:
  fixes f :: "'a \<Rightarrow> 'b::ab_group_add"
  shows "i < length xs \<Longrightarrow> sum_list (map f (xs[i := y])) = sum_list (map f xs) - f (xs ! i) + f y"
proof (induction xs arbitrary: i)
  case Nil
  then show ?case by simp
next
  case (Cons x xs)
  then show ?case by (cases i) (simp_all add: algebra_simps)
qed

lemma InsertSample_totals:
  assumes "InsertSample b s = (b', res)"
  shows "total_samples' b' = total_samples' b + (if FilterSample b s then sample_count s else 0)"
    and "total_period' b' = total_period' b + (if FilterSample b s then period s else 0)"
    and "total_error_callchains' b' = total_error_callchains' b"
  using assms
  by (auto simp: InsertSample_def UpdateSummary_def Let_def split: if_splits option.splits)

lemma InsertSample_summary:
  assumes "summary_matches b" "InsertSample b s = (b', res)"
  shows "summary_matches b'"
proof (cases "FilterSample b s")
  case False
  with assms show ?thesis by (simp add: InsertSample_def)
next
  case True
  show ?thesis
  proof (cases "find_sample (sample_comparator' b) (sample_set' b) s")
    case None
    with assms True show ?thesis
      by (auto simp: InsertSample_def UpdateSummary_def Let_def summary_matches_def)
  next
    case (Some i)
    from find_sample_Some [OF Some] have il: "i < length (sample_set' b)" by simp
    from assms(2) True Some have b': "sample_set' b' = (sample_set' b)[i := MergeSample (sample_set' b ! i) s]"
      "total_period' b' = total_period' b + period s"
      "total_samples' b' = total_samples' b + sample_count s"
      by (auto simp: InsertSample_def UpdateSummary_def Let_def)
    show ?thesis
      using assms(1) il unfolding summary_matches_def b'
      by (simp add: sum_list_map_update MergeSample_def)
  qed
qed

lemma InsertCallChainSample_summary:
  assumes "summary_matches b" "InsertCallChainSample b s ch = (b', res)"
    and "period s = 0" "sample_count s = 0"
  shows "summary_matches b'"
proof (cases "find_sample (sample_comparator' b) (sample_set' b) s")
  case None
  with assms show ?thesis
    by (auto simp: InsertCallChainSample_def summary_matches_def)
next
  case (Some i)
  from find_sample_Some [OF Some] have il: "i < length (sample_set' b)" by simp
  show ?thesis
  proof (cases "i \<in> set ch")
    case True
    with assms Some show ?thesis by (auto simp: InsertCallChainSample_def)
  next
    case False
    with assms(2) Some have b': "sample_set' b' = (sample_set' b)[i := MergeSample (sample_set' b ! i) s]"
      "total_period' b' = total_period' b" "total_samples' b' = total_samples' b"
      by (auto simp: InsertCallChainSample_def)
    show ?thesis
      using assms(1,3,4) il unfolding summary_matches_def b'
      by (simp add: sum_list_map_update MergeSample_def)
  qed
qed

lemma InsertCallChainSample_totals:
  assumes "InsertCallChainSample b s ch = (b', res)"
  shows "total_samples' b' = total_samples' b" "total_period' b' = total_period' b"
    "total_error_callchains' b' = total_error_callchains' b"
  using assms by (auto simp: InsertCallChainSample_def split: option.splits if_splits)

lemma InsertCallChainSample_result:
  assumes "InsertCallChainSample b s ch = (b', res)"
  shows "res \<noteq> None"
proof (cases "find_sample (sample_comparator' b) (sample_set' b) s")
  case None
  with assms show ?thesis by (auto simp: InsertCallChainSample_def)
next
  case (Some i)
  with assms have "res = Some i" by (simp add: InsertCallChainSample_def split: if_splits)
  then show ?thesis by simp
qed

lemma CreateCallChainSample_entry_zero:
  "period (CreateCallChainSample_entry tt th s m ip acc) = 0"
  "sample_count (CreateCallChainSample_entry tt th s m ip acc) = 0"
  by (simp_all add: CreateCallChainSample_entry_def SampleEntry_new_def split: prod.splits)

lemma CreateCallChainSample_summary:
  assumes "summary_matches b" "CreateCallChainSample tt b th s ip k ch acc = (b', res)"
  shows "summary_matches b'"
proof (cases "IsUnknownDso tt (dso (FindMap tt th ip k))")
  case True
  with assms show ?thesis by (auto simp: CreateCallChainSample_def summary_matches_def)
next
  case False
  with assms(2) have "InsertCallChainSample b
      (CreateCallChainSample_entry tt th s (FindMap tt th ip k) ip acc) ch = (b', res)"
    by (simp add: CreateCallChainSample_def)
  with assms(1) show ?thesis
    by (rule InsertCallChainSample_summary) (rule CreateCallChainSample_entry_zero)+
qed

lemma CreateCallChainSample_totals:
  assumes "CreateCallChainSample tt b th s ip k ch acc = (b', res)"
  shows "total_samples' b' = total_samples' b" "total_period' b' = total_period' b"
  using assms
  by (auto simp: CreateCallChainSample_def Let_def split: if_splits dest: InsertCallChainSample_totals)

lemma accumulate_frames_summary:
  "summary_matches b \<Longrightarrow> accumulate_frames tt b th si fs ch acc = (b', ch') \<Longrightarrow> summary_matches b'"
proof (induction fs arbitrary: b ch)
  case Nil
  then show ?case by simp
next
  case (Cons f fs)
  obtain ip k where f: "f = (ip, k)" by (cases f)
  obtain b1 res where c: "CreateCallChainSample tt b th (sample_set' b ! si) ip k ch acc = (b1, res)"
    by (cases "CreateCallChainSample tt b th (sample_set' b ! si) ip k ch acc")
  have s1: "summary_matches b1" using Cons.prems(1) c by (rule CreateCallChainSample_summary)
  show ?case
  proof (cases res)
    case None
    with Cons.prems f c s1 show ?thesis by simp
  next
    case (Some ci)
    with Cons.prems f c have "accumulate_frames tt b1 th si fs (ch @ [ci]) acc = (b', ch')" by simp
    with s1 show ?thesis by (rule Cons.IH)
  qed
qed

lemma accumulate_frames_totals:
  "accumulate_frames tt b th si fs ch acc = (b', ch') \<Longrightarrow>
     total_samples' b' = total_samples' b \<and> total_period' b' = total_period' b"
proof (induction fs arbitrary: b ch)
  case Nil
  then show ?case by simp
next
  case (Cons f fs)
  obtain ip k where f: "f = (ip, k)" by (cases f)
  obtain b1 res where c: "CreateCallChainSample tt b th (sample_set' b ! si) ip k ch acc = (b1, res)"
    by (cases "CreateCallChainSample tt b th (sample_set' b ! si) ip k ch acc")
  note t1 = CreateCallChainSample_totals [OF c]
  show ?case
  proof (cases res)
    case None
    with Cons.prems f c t1 show ?thesis by simp
  next
    case (Some ci)
    with Cons.prems f c have "accumulate_frames tt b1 th si fs (ch @ [ci]) acc = (b', ch')" by simp
    from Cons.IH [OF this] t1 show ?thesis by simp
  qed
qed

lemma InsertCallChainForSample_summary:
  assumes "summary_matches b"
  shows "summary_matches (InsertCallChainForSample b si fr acc)"
proof (cases "si < length (sample_set' b)")
  case True
  with assms show ?thesis
    by (simp add: InsertCallChainForSample_def Let_def summary_matches_def sum_list_map_update)
next
  case False
  with assms show ?thesis
    by (simp add: InsertCallChainForSample_def Let_def summary_matches_def list_update_beyond)
qed

lemma InsertCallChainForSample_totals:
  "total_samples' (InsertCallChainForSample b si fr acc) = total_samples' b"
  "total_period' (InsertCallChainForSample b si fr acc) = total_period' b"
  "total_error_callchains' (InsertCallChainForSample b si fr acc) = total_error_callchains' b"
  by (simp_all add: InsertCallChainForSample_def Let_def)

lemma fold_branch_summary:
  "summary_matches b \<Longrightarrow>
     summary_matches (fold (\<lambda>item b1. fst (CreateBranchSample tt b1 r item)) items b)"
proof (induction items arbitrary: b)
  case Nil
  then show ?case by simp
next
  case (Cons i items)
  have "summary_matches (fst (CreateBranchSample tt b r i))"
    using Cons.prems
    by (cases "CreateBranchSample tt b r i") (auto simp: CreateBranchSample_def dest: InsertSample_summary)
  then show ?case using Cons.IH by simp
qed

lemma CreateSample_summary:
  "summary_matches b \<Longrightarrow> CreateSample tt b r k = Inr (b', res, acc) \<Longrightarrow> summary_matches b'"
  by (auto simp: CreateSample_def split: sum.splits prod.splits dest: InsertSample_summary)

lemma ProcessSampleRecord_summary:
  assumes inv: "summary_matches b" and run: "ProcessSampleRecord tt b r = Inr b'"
  shows "summary_matches b'"
proof (cases "builder_use_branch_address' b")
  case True
  with run inv show ?thesis by (auto simp: ProcessSampleRecord_def fold_branch_summary)
next
  case nb: False
  with run obtain b1 res acc where cs: "CreateSample tt b r (r_in_kernel r) = Inr (b1, res, acc)"
    by (auto simp: ProcessSampleRecord_def split: sum.splits)
  have s1: "summary_matches b1" using inv cs by (rule CreateSample_summary)
  show ?thesis
  proof (cases res)
    case None
    with run nb cs s1 show ?thesis by (simp add: ProcessSampleRecord_def)
  next
    case (Some si)
    show ?thesis
    proof (cases "builder_accumulate_callchain' b1")
      case False
      with run nb cs s1 Some show ?thesis by (simp add: ProcessSampleRecord_def)
    next
      case True
      obtain b2 ch where af: "accumulate_frames tt b1 (GetThreadOfSample tt (sample_set' b1 ! si)) si
          (r_callchain r) [si] acc = (b2, ch)"
        by (cases "accumulate_frames tt b1 (GetThreadOfSample tt (sample_set' b1 ! si)) si
          (r_callchain r) [si] acc")
      have s2: "summary_matches b2" using s1 af by (rule accumulate_frames_summary)
      have "b' = (if builder_build_callchain' b2 then InsertCallChainForSample b2 si (tl ch) acc else b2)"
        using run nb cs Some True af
        by (simp add: ProcessSampleRecord_def Let_def split: if_splits)
      with s2 show ?thesis by (simp add: InsertCallChainForSample_summary)
    qed
  qed
qed

lemma ReportCmdProcessSampleRecord_summary:
  assumes "summary_matches b" "ReportCmdProcessSampleRecord tt b r = Inr b'"
  shows "summary_matches b'"
proof (cases "kind b")
  case EventCountSampleTreeBuilder
  with assms show ?thesis
    by (auto simp: ReportCmdProcessSampleRecord_def dest: ProcessSampleRecord_summary)
next
  case TimestampSampleTreeBuilder
  show ?thesis
  proof (cases "next_sample_cache' b (r_tid r)")
    case None
    with assms TimestampSampleTreeBuilder show ?thesis
      by (auto simp: ReportCmdProcessSampleRecord_def summary_matches_def)
  next
    case (Some cur)
    have "summary_matches (b\<lparr>next_sample_cache' := (next_sample_cache' b)(r_tid r \<mapsto> r)\<rparr>)"
      using assms(1) by (simp add: summary_matches_def)
    moreover have "ProcessSampleRecord tt (b\<lparr>next_sample_cache' := (next_sample_cache' b)(r_tid r \<mapsto> r)\<rparr>) cur = Inr b'"
      using assms(2) TimestampSampleTreeBuilder Some by (simp add: ReportCmdProcessSampleRecord_def)
    ultimately show ?thesis by (rule ProcessSampleRecord_summary)
  qed
qed

lemma CreateSample_entry_fields:
  "period (CreateSample_entry tt r k p) = p"
  "sample_count (CreateSample_entry tt r k p) = 1"
  "accumulated_period (CreateSample_entry tt r k p) = 0"
  by (simp_all add: CreateSample_entry_def SampleEntry_new_def Let_def split: prod.splits)

lemma ProcessSampleRecord_plain:
  assumes nb: "\<not> builder_use_branch_address' b" and gp: "GetPeriod b r = Inr p"
  shows "\<exists>b'. ProcessSampleRecord tt b r = Inr b' \<and> same_config b b'
          \<and> total_period' b' = total_period' b
               + (if FilterSample b (CreateSample_entry tt r (r_in_kernel r) p) then p else 0)
          \<and> total_samples' b' = total_samples' b
               + (if FilterSample b (CreateSample_entry tt r (r_in_kernel r) p) then 1 else 0)"
proof -
  let ?e = "CreateSample_entry tt r (r_in_kernel r) p"
  obtain b1 res where ins: "InsertSample b ?e = (b1, res)" by (cases "InsertSample b ?e")
  have cs: "CreateSample tt b r (r_in_kernel r) = Inr (b1, res, p)"
    using gp ins by (simp add: CreateSample_def)
  have sc: "sample_count ?e = 1" and pe: "period ?e = p"
    by (simp_all add: CreateSample_entry_fields)
  note t1 = InsertSample_totals(1,2) [OF ins, unfolded sc pe]
  have c1: "same_config b b1" using ins by (rule InsertSample_config)
  have "\<exists>b'. ProcessSampleRecord tt b r = Inr b'"
    using nb cs by (cases res) (simp_all add: ProcessSampleRecord_def Let_def split: prod.splits)
  then obtain b' where run: "ProcessSampleRecord tt b r = Inr b'" ..
  have "total_period' b' = total_period' b1 \<and> total_samples' b' = total_samples' b1"
  proof (cases res)
    case None
    with run nb cs show ?thesis by (simp add: ProcessSampleRecord_def)
  next
    case (Some si)
    show ?thesis
    proof (cases "builder_accumulate_callchain' b1")
      case False
      with run nb cs Some show ?thesis by (simp add: ProcessSampleRecord_def)
    next
      case True
      obtain b2 ch where af: "accumulate_frames tt b1 (GetThreadOfSample tt (sample_set' b1 ! si)) si
          (r_callchain r) [si] p = (b2, ch)"
        by (cases "accumulate_frames tt b1 (GetThreadOfSample tt (sample_set' b1 ! si)) si
          (r_callchain r) [si] p")
      have "b' = (if builder_build_callchain' b2 then InsertCallChainForSample b2 si (tl ch) p else b2)"
        using run nb cs Some True af
        by (simp add: ProcessSampleRecord_def Let_def split: if_splits)
      with accumulate_frames_totals [OF af] show ?thesis
        by (simp add: InsertCallChainForSample_totals)
    qed
  qed
  with t1 run ProcessSampleRecord_config [OF run] show ?thesis by simp
qed

lemma InsertSample_at_equal:
  assumes "FilterSample b s" "find_sample (sample_comparator' b) (sample_set' b) s = Some i"
  shows "InsertSample b s =
           (b\<lparr>total_samples' := total_samples' b + sample_count s,
              total_period' := total_period' b + period s,
              sample_set' := (sample_set' b)[i := MergeSample (sample_set' b ! i) s]\<rparr>, Some i)"
  using assms by (simp add: InsertSample_def UpdateSummary_def Let_def)

lemma InsertSample_at_new:
  assumes "FilterSample b s" "find_sample (sample_comparator' b) (sample_set' b) s = None"
  shows "InsertSample b s =
           (b\<lparr>total_samples' := total_samples' b + sample_count s,
              total_period' := total_period' b + period s,
              sample_set' := sample_set' b @ [s]\<rparr>, Some (length (sample_set' b)))"
  using assms by (simp add: InsertSample_def UpdateSummary_def Let_def)

lemma CreateCallChainSample_cases:
  "(IsUnknownDso tt (dso (FindMap tt thread ip in_kernel)) \<longrightarrow>
      CreateCallChainSample tt b thread sample ip in_kernel chain acc_info
        = (b\<lparr>total_error_callchains' := total_error_callchains' b + 1\<rparr>, None))
   \<and> (\<not> IsUnknownDso tt (dso (FindMap tt thread ip in_kernel)) \<longrightarrow>
      snd (CreateCallChainSample tt b thread sample ip in_kernel chain acc_info) \<noteq> None
      \<and> total_error_callchains' (fst (CreateCallChainSample tt b thread sample ip in_kernel chain acc_info))
          = total_error_callchains' b)"
proof -
  obtain b' res where c: "InsertCallChainSample b
      (CreateCallChainSample_entry tt thread sample (FindMap tt thread ip in_kernel) ip acc_info) chain = (b', res)"
    by (cases "InsertCallChainSample b
      (CreateCallChainSample_entry tt thread sample (FindMap tt thread ip in_kernel) ip acc_info) chain")
  from InsertCallChainSample_totals(3) [OF c] InsertCallChainSample_result [OF c] c
  show ?thesis by (simp add: CreateCallChainSample_def)
qed

lemma accumulate_frames_errors:
  "total_error_callchains' (fst (accumulate_frames tt b thread si frames chain acc_info))
     = total_error_callchains' b + (if \<exists>f\<in>set frames. frame_unknown tt thread f then 1 else 0)
   \<and> length (snd (accumulate_frames tt b thread si frames chain acc_info))
     = length chain + length (takeWhile (\<lambda>f. \<not> frame_unknown tt thread f) frames)"
proof (induction frames arbitrary: b chain)
  case Nil
  show ?case by simp
next
  case (Cons f frames)
  obtain ip k where f: "f = (ip, k)" by (cases f)
  show ?case
  proof (cases "frame_unknown tt thread f")
    case True
    then have "CreateCallChainSample tt b thread (sample_set' b ! si) ip k chain acc_info
        = (b\<lparr>total_error_callchains' := total_error_callchains' b + 1\<rparr>, None)"
      using CreateCallChainSample_cases [of tt thread ip k] f by (simp add: frame_unknown_def)
    with True f show ?thesis by simp
  next
    case False
    obtain b1 res where c: "CreateCallChainSample tt b thread (sample_set' b ! si) ip k chain acc_info = (b1, res)"
      by (cases "CreateCallChainSample tt b thread (sample_set' b ! si) ip k chain acc_info")
    from False f CreateCallChainSample_cases [of tt thread ip k b "sample_set' b ! si" chain acc_info] c
    obtain ci where r: "res = Some ci" and e: "total_error_callchains' b1 = total_error_callchains' b"
      by (auto simp: frame_unknown_def)
    from Cons.IH [of b1 "chain @ [ci]"] False f c r e show ?thesis by simp
  qed
qed

lemma with_cache_simps [simp]:
  "next_sample_cache' (with_cache c b) = c"
  "sample_set' (with_cache c b) = sample_set' b"
  "kind (with_cache c b) = kind b"
  "sample_comparator' (with_cache c b) = sample_comparator' b"
  "builder_use_branch_address' (with_cache c b) = builder_use_branch_address' b"
  "builder_accumulate_callchain' (with_cache c b) = builder_accumulate_callchain' b"
  "builder_build_callchain' (with_cache c b) = builder_build_callchain' b"
  "total_samples' (with_cache c b) = total_samples' b"
  "total_period' (with_cache c b) = total_period' b"
  "total_error_callchains' (with_cache c b) = total_error_callchains' b"
  "with_cache c (with_cache c' b) = with_cache c b"
  "FilterSample (with_cache c b) s = FilterSample b s"
  by (simp_all add: with_cache_def FilterSample_def)

lemma InsertSample_cache:
  "InsertSample (with_cache c b) s = (with_cache c (fst (InsertSample b s)), snd (InsertSample b s))"
  by (simp add: InsertSample_def UpdateSummary_def Let_def with_cache_def FilterSample_def
      split: option.splits)

lemma InsertCallChainSample_cache:
  "InsertCallChainSample (with_cache c b) s ch
     = (with_cache c (fst (InsertCallChainSample b s ch)), snd (InsertCallChainSample b s ch))"
  by (simp add: InsertCallChainSample_def with_cache_def split: option.splits)

lemma CreateCallChainSample_cache:
  "CreateCallChainSample tt (with_cache c b) th s ip k ch acc
     = (with_cache c (fst (CreateCallChainSample tt b th s ip k ch acc)),
        snd (CreateCallChainSample tt b th s ip k ch acc))"
  by (simp add: CreateCallChainSample_def Let_def InsertCallChainSample_cache)
     (simp add: with_cache_def)

lemma accumulate_frames_cache:
  "accumulate_frames tt (with_cache c b) th si fs ch acc
     = (with_cache c (fst (accumulate_frames tt b th si fs ch acc)),
        snd (accumulate_frames tt b th si fs ch acc))"
proof (induction fs arbitrary: b ch)
  case Nil
  show ?case by simp
next
  case (Cons f fs)
  obtain ip k where f: "f = (ip, k)" by (cases f)
  obtain b1 res where cc: "CreateCallChainSample tt b th (sample_set' b ! si) ip k ch acc = (b1, res)"
    by (cases "CreateCallChainSample tt b th (sample_set' b ! si) ip k ch acc")
  show ?case
  proof (cases res)
    case None
    with f cc show ?thesis by (simp add: CreateCallChainSample_cache)
  next
    case (Some ci)
    with f cc Cons.IH [of b1 "ch @ [ci]"] show ?thesis by (simp add: CreateCallChainSample_cache)
  qed
qed

lemma InsertCallChainForSample_cache:
  "InsertCallChainForSample (with_cache c b) si fr acc = with_cache c (InsertCallChainForSample b si fr acc)"
  by (simp add: InsertCallChainForSample_def Let_def with_cache_def)

lemma fold_branch_cache:
  "fold (\<lambda>item b1. fst (CreateBranchSample tt b1 r item)) items (with_cache c b)
     = with_cache c (fold (\<lambda>item b1. fst (CreateBranchSample tt b1 r item)) items b)"
  by (induction items arbitrary: b) (simp_all add: CreateBranchSample_def InsertSample_cache)

lemma ProcessSampleRecord_cache:
  assumes "GetPeriod (with_cache c b) x = GetPeriod b x"
  shows "ProcessSampleRecord tt (with_cache c b) x = map_sum id (with_cache c) (ProcessSampleRecord tt b x)"
proof (cases "builder_use_branch_address' b")
  case True
  then show ?thesis by (simp add: ProcessSampleRecord_def fold_branch_cache)
next
  case nb: False
  show ?thesis
  proof (cases "GetPeriod b x")
    case (Inl e)
    with assms nb show ?thesis by (simp add: ProcessSampleRecord_def CreateSample_def)
  next
    case (Inr p)
    let ?e = "CreateSample_entry tt x (r_in_kernel x) p"
    obtain b1 res where ins: "InsertSample b ?e = (b1, res)" by (cases "InsertSample b ?e")
    have cs: "CreateSample tt b x (r_in_kernel x) = Inr (b1, res, p)"
      using Inr ins by (simp add: CreateSample_def)
    have cs': "CreateSample tt (with_cache c b) x (r_in_kernel x) = Inr (with_cache c b1, res, p)"
      using Inr assms ins by (simp add: CreateSample_def InsertSample_cache)
    show ?thesis
    proof (cases res)
      case None
      with nb cs cs' show ?thesis by (simp add: ProcessSampleRecord_def)
    next
      case (Some si)
      obtain b2 ch where af: "accumulate_frames tt b1 (GetThreadOfSample tt (sample_set' b1 ! si)) si
          (r_callchain x) [si] p = (b2, ch)"
        by (cases "accumulate_frames tt b1 (GetThreadOfSample tt (sample_set' b1 ! si)) si
          (r_callchain x) [si] p")
      with nb cs cs' Some show ?thesis
        by (simp add: ProcessSampleRecord_def Let_def accumulate_frames_cache
            InsertCallChainForSample_cache)
    qed
  qed
qed

lemma GetPeriod_cache_other:
  "c (r_tid x) = next_sample_cache' b (r_tid x) \<Longrightarrow> GetPeriod (with_cache c b) x = GetPeriod b x"
  by (simp add: GetPeriod_def split: builder_kind.splits)

lemma ReportCmdProcessSampleRecord_cache_other:
  assumes "r_tid x \<noteq> t" "cache_keyed_by_tid b"
  shows "ReportCmdProcessSampleRecord tt (with_cache ((next_sample_cache' b)(t := v)) b) x
     = map_sum id (\<lambda>b'. with_cache ((next_sample_cache' b')(t := v)) b')
         (ReportCmdProcessSampleRecord tt b x)"
proof (cases "kind b")
  case EventCountSampleTreeBuilder
  have gp: "GetPeriod (with_cache ((next_sample_cache' b)(t := v)) b) x = GetPeriod b x"
    using EventCountSampleTreeBuilder by (simp add: GetPeriod_def)
  have cfg: "\<And>b'. ProcessSampleRecord tt b x = Inr b' \<Longrightarrow> next_sample_cache' b' = next_sample_cache' b"
    using ProcessSampleRecord_config by (auto simp: same_config_def)
  show ?thesis
    using EventCountSampleTreeBuilder ProcessSampleRecord_cache [OF gp, of tt] cfg
    by (cases "ProcessSampleRecord tt b x") (simp_all add: ReportCmdProcessSampleRecord_def)
next
  case k: TimestampSampleTreeBuilder
  let ?c = "next_sample_cache' b"
  show ?thesis
  proof (cases "?c (r_tid x)")
    case None
    with k assms(1) show ?thesis
      by (simp add: ReportCmdProcessSampleRecord_def with_cache_def fun_upd_twist)
  next
    case (Some cur)
    with assms(2) have ct: "r_tid cur = r_tid x" by (simp add: cache_keyed_by_tid_def)
    let ?b1 = "with_cache (?c(r_tid x \<mapsto> x)) b"
    have gp: "GetPeriod (with_cache ((?c(r_tid x \<mapsto> x))(t := v)) ?b1) cur = GetPeriod ?b1 cur"
      using ct assms(1) by (intro GetPeriod_cache_other) simp
    have cfg: "\<And>b'. ProcessSampleRecord tt ?b1 cur = Inr b' \<Longrightarrow> next_sample_cache' b' = ?c(r_tid x \<mapsto> x)"
      using ProcessSampleRecord_config by (fastforce simp: same_config_def)
    have l: "ReportCmdProcessSampleRecord tt (with_cache (?c(t := v)) b) x
        = ProcessSampleRecord tt (with_cache ((?c(r_tid x \<mapsto> x))(t := v)) ?b1) cur"
      using k Some assms(1) by (simp add: ReportCmdProcessSampleRecord_def with_cache_def fun_upd_twist)
    have r: "ReportCmdProcessSampleRecord tt b x = ProcessSampleRecord tt ?b1 cur"
      using k Some by (simp add: ReportCmdProcessSampleRecord_def with_cache_def)
    show ?thesis
      unfolding l r ProcessSampleRecord_cache [OF gp, of tt]
      using cfg by (cases "ProcessSampleRecord tt ?b1 cur") simp_all
  qed
qed

lemma ProcessSampleRecord_total:
  assumes "builder_use_branch_address' b \<or> (\<exists>p. GetPeriod b x = Inr p)"
  shows "\<exists>b'. ProcessSampleRecord tt b x = Inr b'"
proof (cases "builder_use_branch_address' b")
  case True
  then show ?thesis by (simp add: ProcessSampleRecord_def)
next
  case False
  with assms obtain p where "GetPeriod b x = Inr p" by blast
  from ProcessSampleRecord_plain [OF False this] show ?thesis by blast
qed

lemma timestamp_step:
  assumes k: "kind b = TimestampSampleTreeBuilder" and inv: "cache_keyed_by_tid b"
  shows "\<exists>b'. ReportCmdProcessSampleRecord tt b r = Inr b'
           \<and> kind b' = TimestampSampleTreeBuilder \<and> cache_keyed_by_tid b'
           \<and> next_sample_cache' b' = (next_sample_cache' b)(r_tid r \<mapsto> r)"
proof (cases "next_sample_cache' b (r_tid r)")
  case None
  with k inv show ?thesis
    by (simp add: ReportCmdProcessSampleRecord_def cache_keyed_by_tid_def)
next
  case (Some cur)
  let ?b1 = "b\<lparr>next_sample_cache' := (next_sample_cache' b)(r_tid r \<mapsto> r)\<rparr>"
  from Some inv have ct: "r_tid cur = r_tid r" by (simp add: cache_keyed_by_tid_def)
  have "\<exists>p. GetPeriod ?b1 cur = Inr p" using k ct by (simp add: GetPeriod_def)
  then obtain b' where run: "ProcessSampleRecord tt ?b1 cur = Inr b'"
    using ProcessSampleRecord_total by blast
  from ProcessSampleRecord_config [OF run]
  have "kind b' = kind b" "next_sample_cache' b' = (next_sample_cache' b)(r_tid r \<mapsto> r)"
    by (simp_all add: same_config_def)
  moreover have "ReportCmdProcessSampleRecord tt b r = Inr b'"
    using k Some run by (simp add: ReportCmdProcessSampleRecord_def)
  ultimately show ?thesis using k inv by (auto simp: cache_keyed_by_tid_def)
qed

lemma last_with_tid_Nil [simp]: "last_with_tid t [] = None"
  by (simp add: last_with_tid_def)

lemma last_with_tid_Cons:
  "last_with_tid t (x # rs) =
     (case last_with_tid t rs of
        Some r \<Rightarrow> Some r
      | None \<Rightarrow> if r_tid (snd x) = t then Some (snd x) else None)"
  by (auto simp: last_with_tid_def split: list.splits)

lemma timestamp_records:
  assumes "kind b = TimestampSampleTreeBuilder" "cache_keyed_by_tid b"
  shows "\<exists>b'. ReportCmdProcessSampleRecords b rs = Inr b'
           \<and> kind b' = TimestampSampleTreeBuilder \<and> cache_keyed_by_tid b'
           \<and> (\<forall>t. next_sample_cache' b' t =
                 (case last_with_tid t rs of None \<Rightarrow> next_sample_cache' b t | Some r \<Rightarrow> Some r))"
  using assms
proof (induction rs arbitrary: b)
  case Nil
  then show ?case by simp
next
  case (Cons x rs)
  obtain tt r where x: "x = (tt, r)" by (cases x)
  from timestamp_step [OF Cons.prems, of tt r]
  obtain b1 where b1: "ReportCmdProcessSampleRecord tt b r = Inr b1"
    "kind b1 = TimestampSampleTreeBuilder" "cache_keyed_by_tid b1"
    "next_sample_cache' b1 = (next_sample_cache' b)(r_tid r \<mapsto> r)" by blast
  from Cons.IH [OF b1(2,3)]
  obtain b' where b': "ReportCmdProcessSampleRecords b1 rs = Inr b'"
    "kind b' = TimestampSampleTreeBuilder" "cache_keyed_by_tid b'"
    "\<forall>t. next_sample_cache' b' t =
       (case last_with_tid t rs of None \<Rightarrow> next_sample_cache' b1 t | Some r \<Rightarrow> Some r)" by blast
  have "ReportCmdProcessSampleRecords b (x # rs) = Inr b'"
    using x b1(1) b'(1) by simp
  moreover have "\<forall>t. next_sample_cache' b' t =
       (case last_with_tid t (x # rs) of None \<Rightarrow> next_sample_cache' b t | Some r \<Rightarrow> Some r)"
    using b'(4) b1(4) x by (auto simp: last_with_tid_Cons split: option.splits)
  ultimately show ?case using b'(2,3) by blast
qed

lemma records_append:
  "ReportCmdProcessSampleRecords b (xs @ ys) =
     (case ReportCmdProcessSampleRecords b xs of
        Inl e \<Rightarrow> Inl e | Inr b1 \<Rightarrow> ReportCmdProcessSampleRecords b1 ys)"
  by (induction xs arbitrary: b) (auto split: sum.splits)

lemma records_cache_other:
  assumes "\<forall>x\<in>set ys. r_tid (snd x) \<noteq> t" "cache_keyed_by_tid b" "kind b = TimestampSampleTreeBuilder"
  shows "ReportCmdProcessSampleRecords (with_cache ((next_sample_cache' b)(t := v)) b) ys
     = map_sum id (\<lambda>b'. with_cache ((next_sample_cache' b')(t := v)) b')
         (ReportCmdProcessSampleRecords b ys)"
  using assms
proof (induction ys arbitrary: b)
  case Nil
  show ?case by simp
next
  case (Cons x ys)
  obtain tt r where x: "x = (tt, r)" by (cases x)
  with Cons.prems have ne: "r_tid r \<noteq> t" by simp
  from timestamp_step [OF Cons.prems(3,2), of tt r]
  obtain b1 where b1: "ReportCmdProcessSampleRecord tt b r = Inr b1"
    "kind b1 = TimestampSampleTreeBuilder" "cache_keyed_by_tid b1" by blast
  have s1: "ReportCmdProcessSampleRecord tt (with_cache ((next_sample_cache' b)(t := v)) b) r
      = Inr (with_cache ((next_sample_cache' b1)(t := v)) b1)"
    using ReportCmdProcessSampleRecord_cache_other [OF ne Cons.prems(2), of tt v] b1(1) by simp
  have s2: "ReportCmdProcessSampleRecords (with_cache ((next_sample_cache' b1)(t := v)) b1) ys
     = map_sum id (\<lambda>b'. with_cache ((next_sample_cache' b')(t := v)) b')
         (ReportCmdProcessSampleRecords b1 ys)"
    using Cons.prems(1) b1(2,3) by (intro Cons.IH) simp_all
  show ?case
    unfolding x ReportCmdProcessSampleRecords.simps s1 b1(1) by (simp only: sum.case s2)
qed

lemma last_with_tid_none: "\<forall>x\<in>set xs. r_tid (snd x) \<noteq> t \<Longrightarrow> last_with_tid t xs = None"
  by (induction xs) (auto simp: last_with_tid_Cons)

lemma single_record_thread:
  assumes k: "kind b = TimestampSampleTreeBuilder" and inv: "cache_keyed_by_tid b"
    and none: "next_sample_cache' b (r_tid r) = None"
    and xs: "\<forall>x\<in>set xs. r_tid (snd x) \<noteq> r_tid r" and ys: "\<forall>x\<in>set ys. r_tid (snd x) \<noteq> r_tid r"
  shows "ReportCmdProcessSampleRecords b (xs @ [(tt, r)] @ ys)
     = map_sum id (\<lambda>b'. b'\<lparr>next_sample_cache' := (next_sample_cache' b')(r_tid r \<mapsto> r)\<rparr>)
         (ReportCmdProcessSampleRecords b (xs @ ys))"
proof -
  from timestamp_records [OF k inv, of xs]
  obtain b1 where b1: "ReportCmdProcessSampleRecords b xs = Inr b1"
    "kind b1 = TimestampSampleTreeBuilder" "cache_keyed_by_tid b1"
    "\<forall>t. next_sample_cache' b1 t =
       (case last_with_tid t xs of None \<Rightarrow> next_sample_cache' b t | Some r \<Rightarrow> Some r)" by blast
  have n1: "next_sample_cache' b1 (r_tid r) = None"
    using b1(4) none last_with_tid_none [OF xs] by simp
  have step: "ReportCmdProcessSampleRecord tt b1 r
      = Inr (with_cache ((next_sample_cache' b1)(r_tid r := Some r)) b1)"
    using b1(2) n1 by (simp add: ReportCmdProcessSampleRecord_def with_cache_def)
  have l: "ReportCmdProcessSampleRecords b (xs @ [(tt, r)] @ ys)
      = ReportCmdProcessSampleRecords (with_cache ((next_sample_cache' b1)(r_tid r := Some r)) b1) ys"
    by (simp add: records_append b1(1) step)
  have r: "ReportCmdProcessSampleRecords b (xs @ ys) = ReportCmdProcessSampleRecords b1 ys"
    by (simp add: records_append b1(1))
  show ?thesis
    unfolding l r records_cache_other [OF ys b1(3,2)] by (simp add: with_cache_def)
qed

lemma last_record_not_processed:
  assumes k: "kind b = TimestampSampleTreeBuilder" and inv: "cache_keyed_by_tid b"
    and ys: "\<forall>x\<in>set ys. r_tid (snd x) \<noteq> r_tid r"
    and same: "r_tid r' = r_tid r" "r_time r' = r_time r"
  shows "ReportCmdProcessSampleRecords b (xs @ [(tt, r')] @ ys)
     = map_sum id (\<lambda>b'. b'\<lparr>next_sample_cache' := (next_sample_cache' b')(r_tid r \<mapsto> r')\<rparr>)
         (ReportCmdProcessSampleRecords b (xs @ [(tt, r)] @ ys))"
proof -
  let ?t = "r_tid r"
  from timestamp_records [OF k inv, of xs]
  obtain b1 where b1: "ReportCmdProcessSampleRecords b xs = Inr b1"
    "kind b1 = TimestampSampleTreeBuilder" "cache_keyed_by_tid b1" by blast
  from timestamp_step [OF b1(2,3), of tt r]
  obtain b2 where b2: "ReportCmdProcessSampleRecord tt b1 r = Inr b2"
    "kind b2 = TimestampSampleTreeBuilder" "cache_keyed_by_tid b2"
    "next_sample_cache' b2 = (next_sample_cache' b1)(?t \<mapsto> r)" by blast
  let ?c = "next_sample_cache' b1"
  have step': "ReportCmdProcessSampleRecord tt b1 r'
      = Inr (with_cache ((next_sample_cache' b2)(?t := Some r')) b2)"
  proof (cases "?c ?t")
    case None
    then have "b2 = b1\<lparr>next_sample_cache' := ?c(?t \<mapsto> r)\<rparr>"
      using b2(1) b1(2) by (simp add: ReportCmdProcessSampleRecord_def)
    then show ?thesis
      using None b1(2) same by (simp add: ReportCmdProcessSampleRecord_def with_cache_def)
  next
    case (Some cur)
    with b1(3) have ct: "r_tid cur = ?t" by (simp add: cache_keyed_by_tid_def)
    let ?A = "with_cache (?c(?t \<mapsto> r)) b1"
    have ra: "ProcessSampleRecord tt ?A cur = Inr b2"
      using b2(1) b1(2) Some by (simp add: ReportCmdProcessSampleRecord_def with_cache_def)
    have gp: "GetPeriod (with_cache (?c(?t \<mapsto> r')) ?A) cur = GetPeriod ?A cur"
      using ct same b1(2) by (simp add: GetPeriod_def)
    have "ReportCmdProcessSampleRecord tt b1 r' = ProcessSampleRecord tt (with_cache (?c(?t \<mapsto> r')) ?A) cur"
      using b1(2) Some same by (simp add: ReportCmdProcessSampleRecord_def with_cache_def)
    also have "\<dots> = Inr (with_cache (?c(?t \<mapsto> r')) b2)"
      unfolding ProcessSampleRecord_cache [OF gp] ra by simp
    finally show ?thesis using b2(4) by simp
  qed
  have l: "ReportCmdProcessSampleRecords b (xs @ [(tt, r')] @ ys)
      = ReportCmdProcessSampleRecords (with_cache ((next_sample_cache' b2)(?t := Some r')) b2) ys"
    by (simp add: records_append b1(1) step')
  have r: "ReportCmdProcessSampleRecords b (xs @ [(tt, r)] @ ys) = ReportCmdProcessSampleRecords b2 ys"
    by (simp add: records_append b1(1) b2(1))
  show ?thesis
    unfolding l r records_cache_other [OF ys b2(3,2)] by (simp add: with_cache_def)
qed



lemma Build_fields:
  assumes "BuildSampleComparatorAndDisplayer n keys cmd = Inr cmd'"
  shows "print_callgraph' cmd' = print_callgraph' cmd \<and> accumulate_callchain' cmd' = accumulate_callchain' cmd
       \<and> use_branch_address' cmd' = use_branch_address' cmd \<and> event_attrs' cmd' = event_attrs' cmd
       \<and> trace_offcpu' cmd' = trace_offcpu' cmd \<and> sample_tree_builder' cmd' = sample_tree_builder' cmd
       \<and> sample_tree' cmd' = sample_tree' cmd \<and> record_filename' cmd' = record_filename' cmd"
  using assms unfolding BuildSampleComparatorAndDisplayer_def Let_def
  by (auto split: sum.splits prod.splits)

lemma ParseOptions_g_fields:
  assumes "ParseOptions_g v cmd = Inr cmd'"
  shows "print_callgraph' cmd' = (v \<noteq> None \<or> print_callgraph' cmd)
       \<and> accumulate_callchain' cmd' = (v \<noteq> None \<or> accumulate_callchain' cmd)
       \<and> use_branch_address' cmd' = use_branch_address' cmd \<and> event_attrs' cmd' = event_attrs' cmd
       \<and> trace_offcpu' cmd' = trace_offcpu' cmd \<and> sample_tree_builder' cmd' = sample_tree_builder' cmd
       \<and> sample_tree' cmd' = sample_tree' cmd \<and> record_filename' cmd' = record_filename' cmd
       \<and> report_filename' cmd' = report_filename' cmd"
  using assms unfolding ParseOptions_g_def Let_def
  by (auto split: option.splits if_splits)

lemma ParseOptions_fields:
  assumes "ParseOptions env args cmd0 = Inr cmd"
  shows "\<exists>options. PreprocessOptions env args = Some options
       \<and> print_callgraph' cmd = (opt_g options \<noteq> None \<or> print_callgraph' cmd0)
       \<and> accumulate_callchain' cmd = (opt_g options \<noteq> None \<or> opt_children options)
       \<and> use_branch_address' cmd = opt_b options \<and> event_attrs' cmd = event_attrs' cmd0
       \<and> trace_offcpu' cmd = trace_offcpu' cmd0 \<and> sample_tree_builder' cmd = sample_tree_builder' cmd0
       \<and> sample_tree' cmd = sample_tree' cmd0"
proof -
  from assms obtain options where po: "PreprocessOptions env args = Some options"
    by (auto simp: ParseOptions_def split: option.splits)
  let ?cmd1 = "cmd0\<lparr>use_branch_address' := opt_b options,
                      accumulate_callchain' := opt_children options,
                      report_csv' := opt_csv options,
                      brief_callgraph' := (\<not> opt_full_callgraph options)\<rparr>"
  from assms po obtain cmd2 where g: "ParseOptions_g (opt_g options) ?cmd1 = Inr cmd2"
    by (auto simp: ParseOptions_def Let_def split: option.splits sum.splits)
  note gf = ParseOptions_g_fields [OF g]
  from assms po g obtain n keys cmdx where
    b: "BuildSampleComparatorAndDisplayer n keys cmdx = Inr cmd"
    and x: "print_callgraph' cmdx = print_callgraph' cmd2" "accumulate_callchain' cmdx = accumulate_callchain' cmd2"
      "use_branch_address' cmdx = use_branch_address' cmd2" "event_attrs' cmdx = event_attrs' cmd2"
      "trace_offcpu' cmdx = trace_offcpu' cmd2" "sample_tree_builder' cmdx = sample_tree_builder' cmd2"
      "sample_tree' cmdx = sample_tree' cmd2"
    unfolding ParseOptions_def Let_def
    by (auto split: option.splits sum.splits if_splits)
  from Build_fields [OF b] x gf po show ?thesis by simp
qed

lemma ex_parse:
  "ParseOptions example_env [''-g''] (ReportCommand_init example_env) =
     BuildSampleComparatorAndDisplayer False [''comm'', ''pid'', ''tid'', ''dso'', ''symbol'']
       ((ReportCommand_init example_env)
          \<lparr>use_branch_address' := False, accumulate_callchain' := True, report_csv' := False,
            brief_callgraph' := True, print_callgraph' := True,
            callgraph_max_stack' := 4294967295, callgraph_percent_limit' := 0,
            raw_period' := False,
            symbolizer' := \<lparr>kallsyms = None, demangle = True, show_ip_for_unknown_symbol = True,
                      symfs_dir = None, vmlinux = None\<rparr>,
            sample_tree_builder_options' := SampleTreeBuilderOptions_init\<rparr>)"
  by (simp add: ParseOptions_def example_env_def example_options_def ParseOptions_g_def
      insert_split_def ReportCommand_init_def SampleTreeBuilderOptions_init_def Let_def)


lemma find_sched_switch_present:
  "(\<exists>a\<in>set as. name a = ''sched:sched_switch'') \<Longrightarrow>
     find_sched_switch as < length as \<and> name (as ! find_sched_switch as) = ''sched:sched_switch''"
  by (induction as) auto



lemma broadcast_offcpu_result:
  assumes "broadcast_offcpu tt skip r is bs = Inr bs'" "distinct is"
  shows "length bs' = length bs
       \<and> (\<forall>i<length bs.
             (i \<in> set is \<and> i \<noteq> skip \<longrightarrow> ReportCmdProcessSampleRecord tt (bs ! i) r = Inr (bs' ! i))
           \<and> (\<not> (i \<in> set is \<and> i \<noteq> skip) \<longrightarrow> bs' ! i = bs ! i))"
  using assms
proof (induction "is" arbitrary: bs)
  case Nil
  then show ?case by simp
next
  case (Cons j js)
  show ?case
  proof (cases "j = skip")
    case True
    with Cons.prems have "broadcast_offcpu tt skip r js bs = Inr bs'" "distinct js" by simp_all
    from Cons.IH [OF this] True show ?thesis by auto
  next
    case False
    with Cons.prems obtain b where jl: "j < length bs"
      and b: "ReportCmdProcessSampleRecord tt (bs ! j) r = Inr b"
      and rest: "broadcast_offcpu tt skip r js (bs[j := b]) = Inr bs'"
      by (auto split: if_splits sum.splits)
    from Cons.prems have dj: "distinct js" "j \<notin> set js" by simp_all
    from Cons.IH [OF rest dj(1)]
    have ih: "length bs' = length bs"
      "\<And>i. i < length bs \<Longrightarrow>
         (i \<in> set js \<and> i \<noteq> skip \<longrightarrow> ReportCmdProcessSampleRecord tt (bs[j := b] ! i) r = Inr (bs' ! i))
       \<and> (\<not> (i \<in> set js \<and> i \<noteq> skip) \<longrightarrow> bs' ! i = bs[j := b] ! i)"
      by simp_all
    show ?thesis
    proof (intro conjI allI impI)
      show "length bs' = length bs" by (rule ih(1))
    next
      fix i assume il: "i < length bs" and m: "i \<in> set (j # js) \<and> i \<noteq> skip"
      show "ReportCmdProcessSampleRecord tt (bs ! i) r = Inr (bs' ! i)"
      proof (cases "i = j")
        case True
        with ih(2) [OF il] dj(2) jl b show ?thesis by simp
      next
        case ne: False
        with m have "i \<in> set js \<and> i \<noteq> skip" by simp
        with ih(2) [OF il] ne show ?thesis by simp
      qed
    next
      fix i assume il: "i < length bs" and m: "\<not> (i \<in> set (j # js) \<and> i \<noteq> skip)"
      then have "\<not> (i \<in> set js \<and> i \<noteq> skip)" by auto
      moreover from m False have "i \<noteq> j" by auto
      ultimately show "bs' ! i = bs ! i" using ih(2) [OF il] by simp
    qed
  qed
qed

lemma offcpu_dispatch:
  assumes len: "length (sample_tree_builder' cmd) = length (event_attrs' cmd)"
      and run: "ProcessSampleRecordInTraceOffCpuMode cmd r attr_id = Inr cmd'"
  shows "length (sample_tree_builder' cmd') = length (sample_tree_builder' cmd)
       \<and> (\<forall>i<length (sample_tree_builder' cmd).
            (if (if attr_id = sched_switch_attr_id' cmd then i \<noteq> attr_id else i = attr_id)
             then ReportCmdProcessSampleRecord (thread_tree' cmd) (sample_tree_builder' cmd ! i) r
                    = Inr (sample_tree_builder' cmd' ! i)
             else sample_tree_builder' cmd' ! i = sample_tree_builder' cmd ! i))"
proof (cases "attr_id = sched_switch_attr_id' cmd")
  case True
  with run obtain bs where bc: "broadcast_offcpu (thread_tree' cmd) (sched_switch_attr_id' cmd) r
      [0 ..< length (event_attrs' cmd)] (sample_tree_builder' cmd) = Inr bs"
    and c': "cmd' = cmd\<lparr>sample_tree_builder' := bs\<rparr>"
    by (auto simp: ProcessSampleRecordInTraceOffCpuMode_def split: sum.splits)
  from broadcast_offcpu_result [OF bc] len True c' show ?thesis by simp
next
  case False
  with run obtain b where il: "attr_id < length (sample_tree_builder' cmd)"
    and b: "ReportCmdProcessSampleRecord (thread_tree' cmd) (sample_tree_builder' cmd ! attr_id) r = Inr b"
    and c': "cmd' = cmd\<lparr>sample_tree_builder' := (sample_tree_builder' cmd)[attr_id := b]\<rparr>"
    by (auto simp: ProcessSampleRecordInTraceOffCpuMode_def split: sum.splits if_splits)
  with False show ?thesis by (simp add: nth_list_update)
qed

lemma print_event_skip:
  "trace_offcpu' cmd \<Longrightarrow> print_event cmd (sched_switch_attr_id' cmd) = []"
  by (simp add: print_event_def)

lemma print_event_other:
  assumes "i \<noteq> sched_switch_attr_id' cmd"
  shows "print_event (cmd\<lparr>sample_tree' := (sample_tree' cmd)[sched_switch_attr_id' cmd := t],
                         event_attrs' := (event_attrs' cmd)[sched_switch_attr_id' cmd := a]\<rparr>) i
       = print_event cmd i"
  using assms by (simp add: print_event_def Let_def)

lemma PrintReport_skips_driver:
  assumes "trace_offcpu' cmd"
  shows "PrintReport env (cmd\<lparr>sample_tree' := (sample_tree' cmd)[sched_switch_attr_id' cmd := t],
                         event_attrs' := (event_attrs' cmd)[sched_switch_attr_id' cmd := a]\<rparr>)
       = PrintReport env cmd"
proof -
  let ?cmd' = "cmd\<lparr>sample_tree' := (sample_tree' cmd)[sched_switch_attr_id' cmd := t],
                         event_attrs' := (event_attrs' cmd)[sched_switch_attr_id' cmd := a]\<rparr>"
  have pe: "print_event ?cmd' = print_event cmd"
  proof
    fix i show "print_event ?cmd' i = print_event cmd i"
    proof (cases "i = sched_switch_attr_id' cmd")
      case True
      with assms show ?thesis by (simp add: print_event_def)
    next
      case False
      then show ?thesis by (rule print_event_other)
    qed
  qed
  show ?thesis
    unfolding PrintReport_def Let_def pe by (simp add: PrintReportContext_def)
qed

lemma print_event_error_line:
  "ErrorCallchainsLine n m \<in> set (print_event cmd i) \<longleftrightarrow>
     \<not> (trace_offcpu' cmd \<and> i = sched_switch_attr_id' cmd)
     \<and> n = total_error_callchains (sample_tree' cmd ! i) \<and> n \<noteq> 0
     \<and> m = total_samples (sample_tree' cmd ! i)"
  by (auto simp: print_event_def Let_def)

lemma PrintReport_error_line:
  assumes "report_filename' cmd = [] \<or> fopen_succeeds env (report_filename' cmd)"
  shows "ErrorCallchainsLine n m \<in> set (snd (PrintReport env cmd)) \<longleftrightarrow>
     (\<exists>i<length (event_attrs' cmd).
        \<not> (trace_offcpu' cmd \<and> i = sched_switch_attr_id' cmd)
        \<and> n = total_error_callchains (sample_tree' cmd ! i) \<and> n \<noteq> 0
        \<and> m = total_samples (sample_tree' cmd ! i))"
  using assms
  by (auto simp: PrintReport_def Let_def PrintReportContext_def print_event_error_line)

lemma broadcast_offcpu_summary:
  assumes "broadcast_offcpu tt skip r is bs = Inr bs'" "\<forall>b\<in>set bs. summary_matches b"
  shows "\<forall>b\<in>set bs'. summary_matches b"
  using assms
proof (induction "is" arbitrary: bs)
  case Nil
  then show ?case by simp
next
  case (Cons j js)
  show ?case
  proof (cases "j = skip")
    case True
    with Cons.prems Cons.IH show ?thesis by simp
  next
    case False
    with Cons.prems obtain b where jl: "j < length bs"
      and b: "ReportCmdProcessSampleRecord tt (bs ! j) r = Inr b"
      and rest: "broadcast_offcpu tt skip r js (bs[j := b]) = Inr bs'"
      by (auto split: if_splits sum.splits)
    from Cons.prems(2) jl have "summary_matches (bs ! j)" by simp
    then have "summary_matches b" using b by (rule ReportCmdProcessSampleRecord_summary)
    with Cons.prems(2) have "\<forall>x\<in>set (bs[j := b]). summary_matches x"
      by (auto dest: set_update_subset_insert [THEN subsetD])
    with rest show ?thesis by (rule Cons.IH)
  qed
qed

lemma ProcessRecord_summary:
  assumes "ProcessRecord env cmd record = Inr cmd'"
      and "\<forall>b\<in>set (sample_tree_builder' cmd). summary_matches b"
  shows "\<forall>b\<in>set (sample_tree_builder' cmd'). summary_matches b"
proof (cases "record")
  case (Sample attr_id r)
  let ?cmd = "cmd\<lparr>thread_tree' := ThreadTree_Update env (thread_tree' cmd) record\<rparr>"
  show ?thesis
  proof (cases "trace_offcpu' cmd")
    case False
    with assms(1) Sample obtain b where il: "attr_id < length (sample_tree_builder' cmd)"
      and b: "ReportCmdProcessSampleRecord_ref (thread_tree' ?cmd) (sample_tree_builder' cmd ! attr_id) r = Inr b"
      and c': "sample_tree_builder' cmd' = (sample_tree_builder' cmd)[attr_id := b]"
      by (auto simp: ProcessRecord_def Let_def split: if_splits sum.splits)
    from assms(2) il have "summary_matches (sample_tree_builder' cmd ! attr_id)" by simp
    with b have "summary_matches b"
      by (auto simp: ReportCmdProcessSampleRecord_ref_def dest: ProcessSampleRecord_summary)
    with assms(2) c' show ?thesis
      by (auto dest: set_update_subset_insert [THEN subsetD])
  next
    case True
    with assms(1) Sample have run: "ProcessSampleRecordInTraceOffCpuMode ?cmd r attr_id = Inr cmd'"
      by (simp add: ProcessRecord_def Let_def)
    show ?thesis
    proof (cases "attr_id = sched_switch_attr_id' cmd")
      case True
      with run obtain bs where bc: "broadcast_offcpu (thread_tree' ?cmd) (sched_switch_attr_id' cmd) r
          [0 ..< length (event_attrs' cmd)] (sample_tree_builder' cmd) = Inr bs"
        and c': "sample_tree_builder' cmd' = bs"
        by (auto simp: ProcessSampleRecordInTraceOffCpuMode_def split: sum.splits)
      from broadcast_offcpu_summary [OF bc assms(2)] c' show ?thesis by simp
    next
      case False
      with run obtain b where il: "attr_id < length (sample_tree_builder' cmd)"
        and b: "ReportCmdProcessSampleRecord (thread_tree' ?cmd) (sample_tree_builder' cmd ! attr_id) r = Inr b"
        and c': "sample_tree_builder' cmd' = (sample_tree_builder' cmd)[attr_id := b]"
        by (auto simp: ProcessSampleRecordInTraceOffCpuMode_def split: sum.splits if_splits)
      from assms(2) il have "summary_matches (sample_tree_builder' cmd ! attr_id)" by simp
      then have "summary_matches b" using b by (rule ReportCmdProcessSampleRecord_summary)
      with assms(2) c' show ?thesis
        by (auto dest: set_update_subset_insert [THEN subsetD])
    qed
  qed
next
  case (TracingData data)
  with assms show ?thesis by (auto simp: ProcessRecord_def ProcessTracingData_def Let_def)
next
  case (OtherRecord t)
  with assms show ?thesis by (auto simp: ProcessRecord_def Let_def)
qed

lemma ProcessRecord_fields:
  assumes "ProcessRecord env cmd record = Inr cmd'"
  shows "sample_tree' cmd' = sample_tree' cmd \<and> sample_tree_sorter' cmd' = sample_tree_sorter' cmd
       \<and> print_callgraph' cmd' = print_callgraph' cmd"
  using assms
  by (cases "record")
     (auto simp: ProcessRecord_def ProcessSampleRecordInTraceOffCpuMode_def ProcessTracingData_def
        Let_def split: if_splits sum.splits)

lemma ReadDataSection_summary:
  assumes "ReadDataSection env cmd records = Inr cmd'"
      and "\<forall>b\<in>set (sample_tree_builder' cmd). summary_matches b"
  shows "(\<forall>b\<in>set (sample_tree_builder' cmd'). summary_matches b)
       \<and> sample_tree' cmd' = sample_tree' cmd \<and> sample_tree_sorter' cmd' = sample_tree_sorter' cmd
       \<and> print_callgraph' cmd' = print_callgraph' cmd"
  using assms
proof (induction "records" arbitrary: cmd)
  case Nil
  then show ?case by simp
next
  case (Cons rcd rcds)
  from Cons.prems(1) obtain cmd1 where p: "ProcessRecord env cmd rcd = Inr cmd1"
    and r: "ReadDataSection env cmd1 rcds = Inr cmd'"
    by (auto split: sum.splits)
  from ProcessRecord_summary [OF p Cons.prems(2)] Cons.IH [OF r] ProcessRecord_fields [OF p]
  show ?case by simp
qed

lemma summary_matches_fresh: "summary_matches (SetEventName n (CreateSampleTreeBuilder opts))"
  by (simp add: summary_matches_def SetEventName_def CreateSampleTreeBuilder_def)

lemma summary_matches_GetSampleTree:
  "summary_matches b \<longleftrightarrow>
     sum_list (map period (samples (GetSampleTree b))) = total_period (GetSampleTree b)
     \<and> sum_list (map sample_count (samples (GetSampleTree b))) = total_samples (GetSampleTree b)"
  by (simp add: summary_matches_def GetSampleTree_def)

lemma sum_list_map_mset:
  fixes f :: "'a \<Rightarrow> 'b::comm_monoid_add"
  shows "mset xs = mset ys \<Longrightarrow> sum_list (map f xs) = sum_list (map f ys)"
  by (metis mset_map sum_mset_sum_list)

lemma ReadSampleTree_summary:
  assumes run: "ReadSampleTreeFromRecordFile env reader cmd = Inr cmd'"
      and b0: "sample_tree_builder' cmd = []" and t0: "sample_tree' cmd = []"
  shows "(\<forall>b\<in>set (sample_tree_builder' cmd').
            sum_list (map period (samples (GetSampleTree b))) = total_period (GetSampleTree b)
          \<and> sum_list (map sample_count (samples (GetSampleTree b))) = total_samples (GetSampleTree b))
       \<and> ((\<forall>c xs g. mset (Sort env c xs g) = mset xs) \<longrightarrow>
           (\<forall>t\<in>set (sample_tree' cmd').
              sum_list (map period (samples t)) = total_period t
            \<and> sum_list (map sample_count (samples t)) = total_samples t))"
proof -
  let ?opts = "(sample_tree_builder_options' cmd)
                   \<lparr>use_branch_address := use_branch_address' cmd,
                    accumulate_callchain := accumulate_callchain' cmd,
                    build_callchain := print_callgraph' cmd,
                    use_caller_as_callchain_root := (\<not> callgraph_show_callee' cmd),
                    trace_offcpu := trace_offcpu' cmd\<rparr>"
  let ?cmd1 = "cmd\<lparr>sample_tree_builder_options' := ?opts,
                     sample_tree_builder' :=
                       sample_tree_builder' cmd
                       @ map (\<lambda>a. SetEventName (name a) (CreateSampleTreeBuilder ?opts)) (event_attrs' cmd)\<rparr>"
  from run obtain cmd2 where rd: "ReadDataSection env ?cmd1 (DataSection reader) = Inr cmd2"
    and c': "cmd' = cmd2\<lparr>sample_tree' :=
                              sample_tree' cmd2
                              @ map (\<lambda>b. let t = GetSampleTree b in
                                         t\<lparr>samples := Sort env (sample_tree_sorter' cmd2) (samples t)
                                                          (print_callgraph' cmd2)\<rparr>)
                                  (sample_tree_builder' cmd2)\<rparr>"
    unfolding ReadSampleTreeFromRecordFile_def Let_def
    by (auto split: sum.splits if_splits)
  have init: "\<forall>b\<in>set (sample_tree_builder' ?cmd1). summary_matches b"
    by (auto simp: b0 summary_matches_fresh)
  from ReadDataSection_summary [OF rd init]
  have inv: "\<forall>b\<in>set (sample_tree_builder' cmd2). summary_matches b"
    and st: "sample_tree' cmd2 = []" by (simp_all add: t0)
  have A: "\<forall>b\<in>set (sample_tree_builder' cmd').
            sum_list (map period (samples (GetSampleTree b))) = total_period (GetSampleTree b)
          \<and> sum_list (map sample_count (samples (GetSampleTree b))) = total_samples (GetSampleTree b)"
    using inv c' by (simp add: summary_matches_GetSampleTree)
  have B: "(\<forall>c xs g. mset (Sort env c xs g) = mset xs) \<longrightarrow>
           (\<forall>t\<in>set (sample_tree' cmd').
              sum_list (map period (samples t)) = total_period t
            \<and> sum_list (map sample_count (samples t)) = total_samples t)"
  proof (intro impI ballI)
    fix t assume perm: "\<forall>c xs g. mset (Sort env c xs g) = mset xs" and t: "t \<in> set (sample_tree' cmd')"
    from t c' st obtain b where bb: "b \<in> set (sample_tree_builder' cmd2)"
      and tb: "t = (GetSampleTree b)\<lparr>samples := Sort env (sample_tree_sorter' cmd2)
                  (samples (GetSampleTree b)) (print_callgraph' cmd2)\<rparr>"
      by (auto simp: Let_def)
    from inv bb have sm: "summary_matches b" by simp
    have ms: "mset (samples t) = mset (sample_set' b)"
      using perm tb by (simp add: GetSampleTree_def)
    from sm sum_list_map_mset [OF ms, of period] sum_list_map_mset [OF ms, of sample_count] tb
    show "sum_list (map period (samples t)) = total_period t
            \<and> sum_list (map sample_count (samples t)) = total_samples t"
      by (simp add: summary_matches_def GetSampleTree_def)
  qed
  from A B show ?thesis ..
qed

lemma fold_branch_totals:
  "total_samples' (fold (\<lambda>item b1. fst (CreateBranchSample tt b1 r item)) items b)
     = total_samples' b
       + of_nat (length (filter (\<lambda>item. FilterSample b (CreateBranchSample_entry tt r item)) items))
   \<and> total_period' (fold (\<lambda>item b1. fst (CreateBranchSample tt b1 r item)) items b)
     = total_period' b
       + of_nat (length (filter (\<lambda>item. FilterSample b (CreateBranchSample_entry tt r item)) items))
         * r_period r"
proof (induction items arbitrary: b)
  case Nil
  show ?case by simp
next
  case (Cons i items)
  let ?e = "CreateBranchSample_entry tt r i"
  obtain b1 res where ins: "InsertSample b ?e = (b1, res)" by (cases "InsertSample b ?e")
  have f: "sample_count ?e = 1" "period ?e = r_period r"
    by (simp_all add: CreateBranchSample_entry_def SampleEntry_new_def Let_def split: prod.splits)
  note t = InsertSample_totals(1,2) [OF ins, unfolded f]
  have c: "same_config b b1" using ins by (rule InsertSample_config)
  have fc: "\<And>s. FilterSample b1 s = FilterSample b s" using c by (rule FilterSample_cong)
  from Cons.IH [of b1] t show ?case
    by (simp add: CreateBranchSample_def ins fc algebra_simps)
qed

lemma ex_read:
  "\<exists>cmd'. ReadSampleTreeFromRecordFile example_env (example_reader True) example_command = Inr cmd'
     \<and> map total_period (sample_tree' cmd') = [0, 300]
     \<and> map total_samples (sample_tree' cmd') = [0, 1]
     \<and> map (map period \<circ> samples) (sample_tree' cmd') = [[], [300]]"
  by (simp add: ReadSampleTreeFromRecordFile_def example_command_def example_reader_def
      example_env_def ReportCommand_init_def SampleTreeBuilderOptions_init_def
      CreateSampleTreeBuilder_def SetEventName_def ProcessRecord_def
      ProcessSampleRecordInTraceOffCpuMode_def ReportCmdProcessSampleRecord_def
      example_record_def ProcessSampleRecord_def CreateSample_def GetPeriod_def
      CreateSample_entry_def SampleEntry_new_def example_thread_tree_def
      InsertSample_def FilterSample_def UpdateSummary_def GetSampleTree_def Let_def
      upt_rec [of 0] upt_rec [of 1] upt_rec [of 2])




lemma broadcast_offcpu_total:
  assumes "\<forall>b\<in>set bs. kind b = TimestampSampleTreeBuilder \<and> cache_keyed_by_tid b"
      and "\<forall>i\<in>set is. i < length bs"
  shows "\<exists>bs'. broadcast_offcpu tt skip r is bs = Inr bs'"
  using assms
proof (induction "is" arbitrary: bs)
  case Nil
  show ?case by simp
next
  case (Cons j js)
  show ?case
  proof (cases "j = skip")
    case True
    with Cons.IH [of bs] Cons.prems show ?thesis by simp
  next
    case False
    from Cons.prems have jl: "j < length bs" by simp
    with Cons.prems(1) have "kind (bs ! j) = TimestampSampleTreeBuilder" "cache_keyed_by_tid (bs ! j)"
      by simp_all
    from timestamp_step [OF this, of tt r]
    obtain b where b: "ReportCmdProcessSampleRecord tt (bs ! j) r = Inr b"
      "kind b = TimestampSampleTreeBuilder" "cache_keyed_by_tid b" by blast
    have 1: "\<forall>x\<in>set (bs[j := b]). kind x = TimestampSampleTreeBuilder \<and> cache_keyed_by_tid x"
      using Cons.prems(1) b(2,3) by (auto dest: set_update_subset_insert [THEN subsetD])
    have 2: "\<forall>i\<in>set js. i < length (bs[j := b])" using Cons.prems(2) by simp
    from Cons.IH [OF 1 2] False jl b(1) show ?thesis by simp
  qed
qed

lemma offcpu_total:
  assumes len: "length (sample_tree_builder' cmd) = length (event_attrs' cmd)"
      and ts: "\<forall>b\<in>set (sample_tree_builder' cmd). kind b = TimestampSampleTreeBuilder \<and> cache_keyed_by_tid b"
      and ok: "attr_id < length (sample_tree_builder' cmd)"
  shows "\<exists>cmd'. ProcessSampleRecordInTraceOffCpuMode cmd r attr_id = Inr cmd'"
proof (cases "attr_id = sched_switch_attr_id' cmd")
  case True
  have "\<forall>i\<in>set [0 ..< length (event_attrs' cmd)]. i < length (sample_tree_builder' cmd)"
    using len by simp
  from broadcast_offcpu_total [OF ts this, of "thread_tree' cmd" "sched_switch_attr_id' cmd" r]
  show ?thesis using True by (auto simp: ProcessSampleRecordInTraceOffCpuMode_def)
next
  case False
  from ts ok have "kind (sample_tree_builder' cmd ! attr_id) = TimestampSampleTreeBuilder"
    "cache_keyed_by_tid (sample_tree_builder' cmd ! attr_id)" by simp_all
  from timestamp_step [OF this, of "thread_tree' cmd" r] False ok
  show ?thesis by (auto simp: ProcessSampleRecordInTraceOffCpuMode_def)
qed

section \<open>The claims\<close>

subsection \<open>C1: periods of the time-delta builder\<close>




subsection \<open>C2: merging of equal entries\<close>

text \<open>
  C2. A sample that the filter accepts and that compares equal to the stored entry
  \<open>i\<close> is merged into that entry: \<open>period\<close>, \<open>accumulated_period\<close> and
  \<open>sample_count\<close> are added, every other field of the entry and every other entry stay
  as they are, the totals grow by the sample's own count and period, and no entry is
  added. The sample set keeps having no two equal entries. Hence inserting the same
  sample twice gives the same entry both times and adds no entry the second time; into
  an empty set it leaves one entry with doubled \<open>period\<close> and \<open>sample_count\<close>.
\<close>

theorem InsertSample_merges_equal_entry:
  assumes noeq: "no_equal_entries (sample_comparator' b) (sample_set' b)"
      and acc: "FilterSample b s"
  shows "(\<forall>i. i < length (sample_set' b) \<and> IsSameSample (sample_comparator' b) (sample_set' b ! i) s \<longrightarrow>
            fst (InsertSample b s) =
              b\<lparr>sample_set' := (sample_set' b)
                     [i := (sample_set' b ! i)
                        \<lparr>period := period (sample_set' b ! i) + period s,
                         accumulated_period := accumulated_period (sample_set' b ! i) + accumulated_period s,
                         sample_count := sample_count (sample_set' b ! i) + sample_count s\<rparr>],
                 total_samples' := total_samples' b + sample_count s,
                 total_period' := total_period' b + period s\<rparr>
            \<and> snd (InsertSample b s) = Some i
            \<and> length (sample_set' (fst (InsertSample b s))) = length (sample_set' b))
       \<and> no_equal_entries (sample_comparator' b) (sample_set' (fst (InsertSample b s)))
       \<and> snd (InsertSample (fst (InsertSample b s)) s) = snd (InsertSample b s)
       \<and> length (sample_set' (fst (InsertSample (fst (InsertSample b s)) s)))
           = length (sample_set' (fst (InsertSample b s)))
       \<and> (sample_set' b = [] \<longrightarrow>
            sample_set' (fst (InsertSample (fst (InsertSample b s)) s)) =
              [s\<lparr>period := period s + period s,
                 accumulated_period := accumulated_period s + accumulated_period s,
                 sample_count := sample_count s + sample_count s\<rparr>])"
proof -
  let ?cmp = "sample_comparator' b"
  let ?b1 = "fst (InsertSample b s)" and ?r1 = "snd (InsertSample b s)"
  have i1: "InsertSample b s = (?b1, ?r1)" by simp
  have c1: "same_config b ?b1" using i1 by (rule InsertSample_config)
  then have cmp1: "sample_comparator' ?b1 = ?cmp" by (simp add: same_config_def)
  have acc1: "FilterSample ?b1 s" using acc c1 by (simp add: FilterSample_cong)
  have ne1: "no_equal_entries ?cmp (sample_set' ?b1)"
    using InsertSample_no_equal_entries [OF noeq i1] cmp1 by simp
  have A: "\<forall>i. i < length (sample_set' b) \<and> IsSameSample ?cmp (sample_set' b ! i) s \<longrightarrow>
            ?b1 = b\<lparr>sample_set' := (sample_set' b)
                     [i := (sample_set' b ! i)
                        \<lparr>period := period (sample_set' b ! i) + period s,
                         accumulated_period := accumulated_period (sample_set' b ! i) + accumulated_period s,
                         sample_count := sample_count (sample_set' b ! i) + sample_count s\<rparr>],
                 total_samples' := total_samples' b + sample_count s,
                 total_period' := total_period' b + period s\<rparr>
            \<and> ?r1 = Some i \<and> length (sample_set' ?b1) = length (sample_set' b)"
  proof (intro allI impI)
    fix i assume h: "i < length (sample_set' b) \<and> IsSameSample ?cmp (sample_set' b ! i) s"
    then have f: "find_sample ?cmp (sample_set' b) s = Some i"
      using noeq by (simp add: find_sample_unique)
    show "?b1 = b\<lparr>sample_set' := (sample_set' b)
                     [i := (sample_set' b ! i)
                        \<lparr>period := period (sample_set' b ! i) + period s,
                         accumulated_period := accumulated_period (sample_set' b ! i) + accumulated_period s,
                         sample_count := sample_count (sample_set' b ! i) + sample_count s\<rparr>],
                 total_samples' := total_samples' b + sample_count s,
                 total_period' := total_period' b + period s\<rparr>
            \<and> ?r1 = Some i \<and> length (sample_set' ?b1) = length (sample_set' b)"
      unfolding InsertSample_at_equal [OF acc f] by (simp add: MergeSample_def)
  qed
  have ex: "\<exists>i. ?r1 = Some i \<and> i < length (sample_set' ?b1) \<and> IsSameSample ?cmp (sample_set' ?b1 ! i) s"
  proof (cases "find_sample ?cmp (sample_set' b) s")
    case None
    show ?thesis unfolding InsertSample_at_new [OF acc None] by (simp add: IsSameSample_refl)
  next
    case (Some i)
    from find_sample_Some [OF Some] have il: "i < length (sample_set' b)"
      and same: "IsSameSample ?cmp (sample_set' b ! i) s" by simp_all
    show ?thesis unfolding InsertSample_at_equal [OF acc Some]
      using il same by (simp add: IsSameSample_MergeSample)
  qed
  then obtain i where i: "?r1 = Some i" "i < length (sample_set' ?b1)"
    "IsSameSample ?cmp (sample_set' ?b1 ! i) s" by blast
  have f2: "find_sample (sample_comparator' ?b1) (sample_set' ?b1) s = Some i"
    using ne1 i cmp1 by (simp add: find_sample_unique)
  note m2 = InsertSample_at_equal [OF acc1 f2]
  have B: "snd (InsertSample ?b1 s) = ?r1
      \<and> length (sample_set' (fst (InsertSample ?b1 s))) = length (sample_set' ?b1)"
    unfolding m2 using i(1) by simp
  have C: "sample_set' b = [] \<longrightarrow> sample_set' (fst (InsertSample ?b1 s)) =
              [s\<lparr>period := period s + period s,
                 accumulated_period := accumulated_period s + accumulated_period s,
                 sample_count := sample_count s + sample_count s\<rparr>]"
  proof
    assume e: "sample_set' b = []"
    then have n: "find_sample ?cmp (sample_set' b) s = None" by simp
    have s1: "sample_set' ?b1 = [s]" "?r1 = Some 0"
      unfolding InsertSample_at_new [OF acc n] using e by simp_all
    with i(1) have "i = 0" by simp
    then show "sample_set' (fst (InsertSample ?b1 s)) =
              [s\<lparr>period := period s + period s,
                 accumulated_period := accumulated_period s + accumulated_period s,
                 sample_count := sample_count s + sample_count s\<rparr>]"
      unfolding m2 using s1 by (simp add: MergeSample_def)
  qed
  from A ne1 B C show ?thesis by blast
qed

text \<open>
  Two samples of the same thread and symbol with the periods 100 and 50: the second is
  merged into the entry of the first, which then has the period 150 and the count 2.
\<close>

theorem InsertSample_merges_equal_entry_witness:
  "fst (InsertSample
         ((example_builder EventCountSampleTreeBuilder False)
            \<lparr>sample_set' := [example_entry 100], total_samples' := 1, total_period' := 100\<rparr>)
         (example_entry 50))
   = (example_builder EventCountSampleTreeBuilder False)
       \<lparr>sample_set' := [(example_entry 100)\<lparr>period := 150, accumulated_period := 0, sample_count := 2\<rparr>],
         total_samples' := 2, total_period' := 150\<rparr>
   \<and> snd (InsertSample
         ((example_builder EventCountSampleTreeBuilder False)
            \<lparr>sample_set' := [example_entry 100], total_samples' := 1, total_period' := 100\<rparr>)
         (example_entry 50)) = Some 0"
proof -
  let ?b = "(example_builder EventCountSampleTreeBuilder False)
            \<lparr>sample_set' := [example_entry 100], total_samples' := 1, total_period' := 100\<rparr>"
  have noeq: "no_equal_entries (sample_comparator' ?b) (sample_set' ?b)"
    by (simp add: no_equal_entries_def)
  have acc: "FilterSample ?b (example_entry 50)"
    by (simp add: FilterSample_def example_builder_def)
  have same: "0 < length (sample_set' ?b)
      \<and> IsSameSample (sample_comparator' ?b) (sample_set' ?b ! 0) (example_entry 50)"
    by (simp add: IsSameSample_iff example_builder_def example_entry_def CreateSample_entry_def
        SampleEntry_new_def example_thread_tree_def example_record_def Let_def)
  have f: "period (example_entry 100) = 100" "period (example_entry 50) = 50"
    "accumulated_period (example_entry 100) = 0" "accumulated_period (example_entry 50) = 0"
    "sample_count (example_entry 100) = 1" "sample_count (example_entry 50) = 1"
    by (simp_all add: example_entry_def CreateSample_entry_fields)
  from InsertSample_merges_equal_entry [OF noeq acc, THEN conjunct1, rule_format, OF same]
  show ?thesis by (simp add: f example_builder_def)
qed

subsection \<open>C3: off-CPU fan-out\<close>

text \<open>
  C3. In off-CPU mode \<open>ProcessRecord\<close> hands a sample record to
  \<open>ProcessSampleRecordInTraceOffCpuMode\<close>. A record whose attribute index is the
  sched\_switch attribute is fed to the builder of every other attribute and the builder
  of its own attribute is left as it is; a record of any other attribute is fed to the
  builder of its own attribute only. At report time the round of the sched\_switch
  attribute prints nothing, and the report does not depend on the sample tree or the
  attribute at that index. With one \<open>TimestampSampleTreeBuilder\<close> per attribute, each
  storing records under their own thread id, the fan-out of a record with a valid
  attribute index returns.
\<close>

theorem offcpu_fan_out:
  assumes len: "length (sample_tree_builder' cmd) = length (event_attrs' cmd)"
      and run: "ProcessSampleRecordInTraceOffCpuMode cmd r attr_id = Inr cmd'"
  shows "length (sample_tree_builder' cmd') = length (sample_tree_builder' cmd)
       \<and> (\<forall>i<length (sample_tree_builder' cmd).
            (if (if attr_id = sched_switch_attr_id' cmd then i \<noteq> attr_id else i = attr_id)
             then ReportCmdProcessSampleRecord (thread_tree' cmd) (sample_tree_builder' cmd ! i) r
                    = Inr (sample_tree_builder' cmd' ! i)
             else sample_tree_builder' cmd' ! i = sample_tree_builder' cmd ! i))
       \<and> (trace_offcpu' cmd \<longrightarrow>
            ProcessRecord env cmd (Sample attr_id r) =
              ProcessSampleRecordInTraceOffCpuMode
                (cmd\<lparr>thread_tree' := ThreadTree_Update env (thread_tree' cmd) (Sample attr_id r)\<rparr>)
                r attr_id)
       \<and> (trace_offcpu' cmd \<longrightarrow>
            print_event cmd (sched_switch_attr_id' cmd) = []
            \<and> (\<forall>t a. PrintReport env
                        (cmd\<lparr>sample_tree' := (sample_tree' cmd)[sched_switch_attr_id' cmd := t],
                             event_attrs' := (event_attrs' cmd)[sched_switch_attr_id' cmd := a]\<rparr>)
                      = PrintReport env cmd))
       \<and> ((\<forall>b\<in>set (sample_tree_builder' cmd).
              kind b = TimestampSampleTreeBuilder \<and> cache_keyed_by_tid b) \<longrightarrow>
            (\<forall>r1 id1. id1 < length (sample_tree_builder' cmd) \<longrightarrow>
               (\<exists>cmd1. ProcessSampleRecordInTraceOffCpuMode cmd r1 id1 = Inr cmd1)))"
proof (intro conjI impI allI)
  from offcpu_dispatch [OF len run]
  show "length (sample_tree_builder' cmd') = length (sample_tree_builder' cmd)" by simp
next
  fix i assume "i < length (sample_tree_builder' cmd)"
  with offcpu_dispatch [OF len run]
  show "if (if attr_id = sched_switch_attr_id' cmd then i \<noteq> attr_id else i = attr_id)
        then ReportCmdProcessSampleRecord (thread_tree' cmd) (sample_tree_builder' cmd ! i) r
               = Inr (sample_tree_builder' cmd' ! i)
        else sample_tree_builder' cmd' ! i = sample_tree_builder' cmd ! i"
    by blast
next
  assume "trace_offcpu' cmd"
  then show "ProcessRecord env cmd (Sample attr_id r) =
      ProcessSampleRecordInTraceOffCpuMode
        (cmd\<lparr>thread_tree' := ThreadTree_Update env (thread_tree' cmd) (Sample attr_id r)\<rparr>)
        r attr_id"
    by (simp add: ProcessRecord_def Let_def)
next
  assume "trace_offcpu' cmd"
  then show "print_event cmd (sched_switch_attr_id' cmd) = []" by (rule print_event_skip)
next
  fix t a assume "trace_offcpu' cmd"
  then show "PrintReport env
      (cmd\<lparr>sample_tree' := (sample_tree' cmd)[sched_switch_attr_id' cmd := t],
           event_attrs' := (event_attrs' cmd)[sched_switch_attr_id' cmd := a]\<rparr>)
      = PrintReport env cmd"
    by (rule PrintReport_skips_driver)
next
  fix r1 id1
  assume "\<forall>b\<in>set (sample_tree_builder' cmd).
      kind b = TimestampSampleTreeBuilder \<and> cache_keyed_by_tid b"
    and "id1 < length (sample_tree_builder' cmd)"
  with len show "\<exists>cmd1. ProcessSampleRecordInTraceOffCpuMode cmd r1 id1 = Inr cmd1"
    by (rule offcpu_total)
qed

text \<open>
  Two attributes, sched\_switch at index 0 and cpu-clock at index 1: a sched\_switch
  record leaves builder 0 as it is and is fed to builder 1, and the round of attribute 0
  prints nothing.
\<close>

theorem offcpu_fan_out_witness:
  "ProcessSampleRecordInTraceOffCpuMode example_offcpu_command (example_record 7 1000 1) 0
     = Inr (example_offcpu_command
         \<lparr>sample_tree_builder' :=
            [example_builder TimestampSampleTreeBuilder False,
             (example_builder TimestampSampleTreeBuilder False)
               \<lparr>next_sample_cache' := [7 \<mapsto> example_record 7 1000 1]\<rparr>]\<rparr>)
   \<and> ReportCmdProcessSampleRecord (thread_tree' example_offcpu_command)
        (sample_tree_builder' example_offcpu_command ! 1) (example_record 7 1000 1)
     = Inr ((example_builder TimestampSampleTreeBuilder False)
               \<lparr>next_sample_cache' := [7 \<mapsto> example_record 7 1000 1]\<rparr>)
   \<and> print_event example_offcpu_command (sched_switch_attr_id' example_offcpu_command) = []"
proof -
  let ?cmd' = "example_offcpu_command
         \<lparr>sample_tree_builder' :=
            [example_builder TimestampSampleTreeBuilder False,
             (example_builder TimestampSampleTreeBuilder False)
               \<lparr>next_sample_cache' := [7 \<mapsto> example_record 7 1000 1]\<rparr>]\<rparr>"
  have len: "length (sample_tree_builder' example_offcpu_command)
      = length (event_attrs' example_offcpu_command)"
    by (simp add: example_offcpu_command_def example_command_def)
  have run: "ProcessSampleRecordInTraceOffCpuMode example_offcpu_command (example_record 7 1000 1) 0
      = Inr ?cmd'"
    by (simp add: ProcessSampleRecordInTraceOffCpuMode_def example_offcpu_command_def
        example_command_def ReportCmdProcessSampleRecord_def example_builder_def
        example_record_def upt_rec [of 0] upt_rec [of 1] upt_rec [of 2])
  have off: "trace_offcpu' example_offcpu_command"
    by (simp add: example_offcpu_command_def example_command_def)
  have one: "(1::nat) < length (sample_tree_builder' example_offcpu_command)"
    by (simp add: example_offcpu_command_def)
  have sid: "sched_switch_attr_id' example_offcpu_command = 0"
    by (simp add: example_offcpu_command_def example_command_def)
  note fan = offcpu_fan_out [OF len run, of example_env]
  from fan [THEN conjunct2, THEN conjunct1, rule_format, OF one]
  have fed: "ReportCmdProcessSampleRecord (thread_tree' example_offcpu_command)
        (sample_tree_builder' example_offcpu_command ! 1) (example_record 7 1000 1)
     = Inr (sample_tree_builder' ?cmd' ! 1)"
    by (simp add: sid)
  from fan [THEN conjunct2, THEN conjunct2, THEN conjunct2, THEN conjunct1, rule_format, OF off]
  have "print_event example_offcpu_command (sched_switch_attr_id' example_offcpu_command) = []"
    by simp
  with run fed show ?thesis by simp
qed

subsection \<open>C4: the filter\<close>

text \<open>
  C4. \<open>FilterSample\<close> accepts a sample if and only if each of the six allowlists (cpu,
  pid, tid, comm, dso report path, demangled symbol name) is empty or contains the
  sample's attribute. A rejected sample leaves the builder as it is: it is not inserted,
  the totals are not updated, and processing its record adds no call chain.
\<close>

theorem FilterSample_accepts_iff:
  "(FilterSample b sample \<longleftrightarrow>
      (cpu_filter' b = {} \<or> cpu sample \<in> cpu_filter' b)
    \<and> (pid_filter' b = {} \<or> pid sample \<in> pid_filter' b)
    \<and> (tid_filter' b = {} \<or> tid sample \<in> tid_filter' b)
    \<and> (comm_filter' b = {} \<or> thread_comm sample \<in> comm_filter' b)
    \<and> (dso_filter' b = {} \<or> report_path (dso (map_entry sample)) \<in> dso_filter' b)
    \<and> (symbol_filter' b = {} \<or> demangled_name (symbol sample) \<in> symbol_filter' b))
   \<and> (\<not> FilterSample b sample \<longrightarrow> InsertSample b sample = (b, None))
   \<and> (\<not> builder_use_branch_address' b \<and> GetPeriod b r = Inr p
        \<and> \<not> FilterSample b (CreateSample_entry tt r (r_in_kernel r) p)
        \<longrightarrow> ProcessSampleRecord tt b r = Inr b)
   \<and> (\<not> FilterSample b (CreateBranchSample_entry tt r item)
        \<longrightarrow> CreateBranchSample tt b r item = (b, None))"
  by (auto simp: FilterSample_def InsertSample_def ProcessSampleRecord_def CreateSample_def
      CreateBranchSample_def)

text \<open>
  With the pid allowlist \<open>{2}\<close> a sample of pid 1 is rejected, and neither inserting it
  nor processing its record changes the builder.
\<close>

theorem FilterSample_accepts_iff_witness:
  "\<not> FilterSample ((example_builder EventCountSampleTreeBuilder False)\<lparr>pid_filter' := {2}\<rparr>)
       (example_entry 100)
   \<and> InsertSample ((example_builder EventCountSampleTreeBuilder False)\<lparr>pid_filter' := {2}\<rparr>)
       (example_entry 100)
     = ((example_builder EventCountSampleTreeBuilder False)\<lparr>pid_filter' := {2}\<rparr>, None)
   \<and> ProcessSampleRecord example_thread_tree
       ((example_builder EventCountSampleTreeBuilder False)\<lparr>pid_filter' := {2}\<rparr>)
       (example_record 1 0 100)
     = Inr ((example_builder EventCountSampleTreeBuilder False)\<lparr>pid_filter' := {2}\<rparr>)"
proof -
  let ?b = "(example_builder EventCountSampleTreeBuilder False)\<lparr>pid_filter' := {2}\<rparr>"
  have e: "CreateSample_entry example_thread_tree (example_record 1 0 100)
      (r_in_kernel (example_record 1 0 100)) 100 = example_entry 100"
    by (simp add: example_entry_def example_record_def)
  have pid: "pid (example_entry 100) = 1"
    by (simp add: example_entry_def CreateSample_entry_def SampleEntry_new_def
        example_thread_tree_def example_record_def Let_def)
  have nb: "\<not> builder_use_branch_address' ?b" by (simp add: example_builder_def)
  have gp: "GetPeriod ?b (example_record 1 0 100) = Inr 100"
    by (simp add: GetPeriod_def example_builder_def example_record_def)
  note f = FilterSample_accepts_iff [of ?b "example_entry 100" "example_record 1 0 100" 100
      example_thread_tree]
  from f [THEN conjunct1] have rej: "\<not> FilterSample ?b (example_entry 100)"
    by (simp add: pid example_builder_def)
  from f [THEN conjunct2, THEN conjunct1] rej
  have ins: "InsertSample ?b (example_entry 100) = (?b, None)" by simp
  from f [THEN conjunct2, THEN conjunct2, THEN conjunct1] nb gp rej
  have "ProcessSampleRecord example_thread_tree ?b (example_record 1 0 100) = Inr ?b"
    by (simp add: e)
  with rej ins show ?thesis by simp
qed

subsection \<open>C5: frames with an unknown DSO\<close>

text \<open>
  C5. When the instruction pointer of a callchain frame resolves to a map whose DSO is
  unknown, \<open>CreateCallChainSample\<close> returns no entry, leaves the sample set as it is and
  adds one to \<open>total_error_callchains\<close>; for a known DSO it returns an entry and leaves
  the counter as it is. Walking the frames of one sample stops at the first unknown
  frame, so the counter grows by one when the chain has an unknown frame and not at all
  otherwise. At report time the round of an event prints the error-callchain line, with
  the count and the total number of samples that its percentage is taken of, if and only
  if the round is printed and the count is not zero.
\<close>

theorem unknown_dso_frame_dropped:
  "(IsUnknownDso tt (dso (FindMap tt thread ip in_kernel)) \<longrightarrow>
      CreateCallChainSample tt b thread sample ip in_kernel chain acc_info
        = (b\<lparr>total_error_callchains' := total_error_callchains' b + 1\<rparr>, None))
   \<and> (\<not> IsUnknownDso tt (dso (FindMap tt thread ip in_kernel)) \<longrightarrow>
      snd (CreateCallChainSample tt b thread sample ip in_kernel chain acc_info) \<noteq> None
      \<and> total_error_callchains' (fst (CreateCallChainSample tt b thread sample ip in_kernel chain acc_info))
          = total_error_callchains' b)
   \<and> total_error_callchains' (fst (accumulate_frames tt b thread si frames chain acc_info))
       = total_error_callchains' b + (if \<exists>f\<in>set frames. frame_unknown tt thread f then 1 else 0)
   \<and> length (snd (accumulate_frames tt b thread si frames chain acc_info))
       = length chain + length (takeWhile (\<lambda>f. \<not> frame_unknown tt thread f) frames)
   \<and> (ErrorCallchainsLine n m \<in> set (print_event cmd i) \<longleftrightarrow>
        \<not> (trace_offcpu' cmd \<and> i = sched_switch_attr_id' cmd)
        \<and> n = total_error_callchains (sample_tree' cmd ! i) \<and> n \<noteq> 0
        \<and> m = total_samples (sample_tree' cmd ! i))
   \<and> (report_filename' cmd = [] \<or> fopen_succeeds env (report_filename' cmd) \<longrightarrow>
        (ErrorCallchainsLine n m \<in> set (snd (PrintReport env cmd)) \<longleftrightarrow>
           (\<exists>j<length (event_attrs' cmd).
              \<not> (trace_offcpu' cmd \<and> j = sched_switch_attr_id' cmd)
              \<and> n = total_error_callchains (sample_tree' cmd ! j) \<and> n \<noteq> 0
              \<and> m = total_samples (sample_tree' cmd ! j))))"
  using CreateCallChainSample_cases [of tt thread ip in_kernel b sample chain acc_info]
    accumulate_frames_errors [of tt b thread si frames chain acc_info]
    print_event_error_line [of n m cmd i]
    PrintReport_error_line [of cmd env n m]
  by blast

text \<open>
  The frame at address 100 lies in the unknown DSO of the example thread tree: it gives
  no entry and the counter goes from 0 to 1. A sample tree with one error callchain
  among 4 samples prints the line; with none it does not.
\<close>

theorem unknown_dso_frame_dropped_witness:
  "CreateCallChainSample example_thread_tree (example_builder EventCountSampleTreeBuilder False)
      (FindThreadOrNew example_thread_tree 1 1) (example_entry 100) 100 False [0] 100
     = ((example_builder EventCountSampleTreeBuilder False)\<lparr>total_error_callchains' := 1\<rparr>, None)
   \<and> ErrorCallchainsLine 1 4 \<in> set (print_event (example_print_command 1) 1)
   \<and> ErrorCallchainsLine 0 4 \<notin> set (print_event (example_print_command 0) 1)
   \<and> ErrorCallchainsLine 1 4 \<in> set (snd (PrintReport example_env (example_print_command 1)))"
proof -
  let ?b = "example_builder EventCountSampleTreeBuilder False"
  let ?th = "FindThreadOrNew example_thread_tree 1 1"
  have u: "IsUnknownDso example_thread_tree (dso (FindMap example_thread_tree ?th 100 False))"
    by (simp add: example_thread_tree_def)
  have z: "total_error_callchains' ?b = 0" by (simp add: example_builder_def)
  have p1: "\<not> (trace_offcpu' (example_print_command 1)
        \<and> (1::nat) = sched_switch_attr_id' (example_print_command 1))
      \<and> (1::u64) = total_error_callchains (sample_tree' (example_print_command 1) ! 1)
      \<and> (1::u64) \<noteq> 0
      \<and> (4::u64) = total_samples (sample_tree' (example_print_command 1) ! 1)"
    by (simp add: example_print_command_def example_command_def)
  have o: "report_filename' (example_print_command 1) = []
      \<or> fopen_succeeds example_env (report_filename' (example_print_command 1))"
    by (simp add: example_print_command_def example_command_def ReportCommand_init_def)
  have l: "(1::nat) < length (event_attrs' (example_print_command 1))"
    by (simp add: example_print_command_def example_command_def)
  note a = unknown_dso_frame_dropped [of example_thread_tree ?th 100 False ?b "example_entry 100"
      "[0]" 100 0 "[]" 1 4 "example_print_command 1" 1 example_env]
  note c = unknown_dso_frame_dropped [of example_thread_tree ?th 100 False ?b "example_entry 100"
      "[0]" 100 0 "[]" 0 4 "example_print_command 0" 1 example_env]
  from a [THEN conjunct1] u z
  have r1: "CreateCallChainSample example_thread_tree ?b ?th (example_entry 100) 100 False [0] 100
      = (?b\<lparr>total_error_callchains' := 1\<rparr>, None)" by simp
  from a [THEN conjunct2, THEN conjunct2, THEN conjunct2, THEN conjunct2, THEN conjunct1] p1
  have r2: "ErrorCallchainsLine 1 4 \<in> set (print_event (example_print_command 1) 1)" by blast
  from c [THEN conjunct2, THEN conjunct2, THEN conjunct2, THEN conjunct2, THEN conjunct1]
  have r3: "ErrorCallchainsLine 0 4 \<notin> set (print_event (example_print_command 0) 1)" by simp
  from a [THEN conjunct2, THEN conjunct2, THEN conjunct2, THEN conjunct2, THEN conjunct2] o l p1
  have r4: "ErrorCallchainsLine 1 4 \<in> set (snd (PrintReport example_env (example_print_command 1)))"
    by blast
  from r1 r2 r3 r4 show ?thesis by simp
qed

subsection \<open>C6: branch sort keys\<close>




subsection \<open>C7: off-CPU mode without a sched\_switch attribute\<close>



subsection \<open>C8: totals and sums\<close>

text \<open>
  C8. \<open>UpdateSummary\<close> adds the sample's own \<open>sample_count\<close> and \<open>period\<close> to the
  totals. Processing one record outside branch mode adds one sample and the record's
  period to the totals when the filter accepts the sample and nothing otherwise; in
  branch mode it adds one sample and the record's period for every branch item that the
  filter accepts. At the end of ingestion, for every pipeline, the sum of the periods of
  the entries of its sample tree equals \<open>total_period\<close> and the sum of their sample
  counts equals \<open>total_samples\<close> (sums of 64-bit unsigned values, which wrap as the
  totals do); this holds for the tree that \<open>GetSampleTree\<close> returns and, when the sorter
  permutes the entries, for the sorted tree that the command keeps.
\<close>

theorem summary_totals_match:
  assumes run: "ReadSampleTreeFromRecordFile env reader cmd = Inr cmd'"
      and b0: "sample_tree_builder' cmd = []" and t0: "sample_tree' cmd = []"
  shows "(\<forall>b\<in>set (sample_tree_builder' cmd').
            sum_list (map period (samples (GetSampleTree b))) = total_period (GetSampleTree b)
          \<and> sum_list (map sample_count (samples (GetSampleTree b))) = total_samples (GetSampleTree b))
       \<and> ((\<forall>c xs g. mset (Sort env c xs g) = mset xs) \<longrightarrow>
           (\<forall>t\<in>set (sample_tree' cmd').
              sum_list (map period (samples t)) = total_period t
            \<and> sum_list (map sample_count (samples t)) = total_samples t))
       \<and> total_samples' (UpdateSummary b1 s) = total_samples' b1 + sample_count s
       \<and> total_period' (UpdateSummary b1 s) = total_period' b1 + period s
       \<and> (\<not> builder_use_branch_address' b1 \<and> GetPeriod b1 r = Inr p \<longrightarrow>
            (\<exists>b2. ProcessSampleRecord tt b1 r = Inr b2
               \<and> total_samples' b2 = total_samples' b1
                   + (if FilterSample b1 (CreateSample_entry tt r (r_in_kernel r) p) then 1 else 0)
               \<and> total_period' b2 = total_period' b1
                   + (if FilterSample b1 (CreateSample_entry tt r (r_in_kernel r) p) then p else 0)))
       \<and> (builder_use_branch_address' b1 \<longrightarrow>
            (\<exists>b2. ProcessSampleRecord tt b1 r = Inr b2
               \<and> total_samples' b2 = total_samples' b1
                   + of_nat (length (filter (\<lambda>item. FilterSample b1 (CreateBranchSample_entry tt r item))
                                       (r_branch_stack r)))
               \<and> total_period' b2 = total_period' b1
                   + of_nat (length (filter (\<lambda>item. FilterSample b1 (CreateBranchSample_entry tt r item))
                                       (r_branch_stack r)))
                     * r_period r))"
proof -
  note A = ReadSampleTree_summary [OF run b0 t0]
  have U: "total_samples' (UpdateSummary b1 s) = total_samples' b1 + sample_count s
      \<and> total_period' (UpdateSummary b1 s) = total_period' b1 + period s"
    by (simp add: UpdateSummary_def)
  have P: "\<not> builder_use_branch_address' b1 \<and> GetPeriod b1 r = Inr p \<longrightarrow>
            (\<exists>b2. ProcessSampleRecord tt b1 r = Inr b2
               \<and> total_samples' b2 = total_samples' b1
                   + (if FilterSample b1 (CreateSample_entry tt r (r_in_kernel r) p) then 1 else 0)
               \<and> total_period' b2 = total_period' b1
                   + (if FilterSample b1 (CreateSample_entry tt r (r_in_kernel r) p) then p else 0))"
  proof
    assume h: "\<not> builder_use_branch_address' b1 \<and> GetPeriod b1 r = Inr p"
    then have nb: "\<not> builder_use_branch_address' b1" and gp: "GetPeriod b1 r = Inr p" by simp_all
    from ProcessSampleRecord_plain [OF nb gp, of tt]
    show "\<exists>b2. ProcessSampleRecord tt b1 r = Inr b2
               \<and> total_samples' b2 = total_samples' b1
                   + (if FilterSample b1 (CreateSample_entry tt r (r_in_kernel r) p) then 1 else 0)
               \<and> total_period' b2 = total_period' b1
                   + (if FilterSample b1 (CreateSample_entry tt r (r_in_kernel r) p) then p else 0)"
      by blast
  qed
  have B: "builder_use_branch_address' b1 \<longrightarrow>
            (\<exists>b2. ProcessSampleRecord tt b1 r = Inr b2
               \<and> total_samples' b2 = total_samples' b1
                   + of_nat (length (filter (\<lambda>item. FilterSample b1 (CreateBranchSample_entry tt r item))
                                       (r_branch_stack r)))
               \<and> total_period' b2 = total_period' b1
                   + of_nat (length (filter (\<lambda>item. FilterSample b1 (CreateBranchSample_entry tt r item))
                                       (r_branch_stack r)))
                     * r_period r)"
    using fold_branch_totals [of tt r "r_branch_stack r" b1]
    by (simp add: ProcessSampleRecord_def)
  from A U P B show ?thesis by blast
qed

text \<open>
  The example file in off-CPU mode, with sched\_switch records of thread 7 at the times
  1000 and 1300: ingestion succeeds, the sched\_switch pipeline stays empty, and the
  cpu-clock pipeline has one entry of period 300, one sample and the total period 300.
\<close>

theorem summary_totals_match_witness:
  "\<exists>cmd'. ReadSampleTreeFromRecordFile example_env (example_reader True) example_command = Inr cmd'
     \<and> map total_period (sample_tree' cmd') = [0, 300]
     \<and> map total_samples (sample_tree' cmd') = [0, 1]
     \<and> map (map period \<circ> samples) (sample_tree' cmd') = [[], [300]]
     \<and> (\<forall>t\<in>set (sample_tree' cmd').
          sum_list (map period (samples t)) = total_period t
        \<and> sum_list (map sample_count (samples t)) = total_samples t)"
proof -
  from ex_read obtain cmd'
    where e: "ReadSampleTreeFromRecordFile example_env (example_reader True) example_command = Inr cmd'
      \<and> map total_period (sample_tree' cmd') = [0, 300]
      \<and> map total_samples (sample_tree' cmd') = [0, 1]
      \<and> map (map period \<circ> samples) (sample_tree' cmd') = [[], [300]]" ..
  then have run: "ReadSampleTreeFromRecordFile example_env (example_reader True) example_command = Inr cmd'"
    by (rule conjunct1)
  have b0: "sample_tree_builder' example_command = []" and t0: "sample_tree' example_command = []"
    by (simp_all add: example_command_def ReportCommand_init_def)
  have perm: "\<forall>c xs g. mset (Sort example_env c xs g) = mset xs"
    by (simp add: example_env_def)
  from summary_totals_match [OF run b0 t0, THEN conjunct2, THEN conjunct1] perm
  have "\<forall>t\<in>set (sample_tree' cmd').
          sum_list (map period (samples t)) = total_period t
        \<and> sum_list (map sample_count (samples t)) = total_samples t"
    by blast
  with e show ?thesis by (intro exI [of _ cmd']) simp
qed

subsection \<open>C9: the call-graph option\<close>

text \<open>
  C9. After successful option parsing of a fresh command, \<open>print_callgraph_\<close> is true
  exactly when \<^verbatim>\<open>-g\<close> was given (with or without an argument), and
  \<open>accumulate_callchain_\<close> is true exactly when \<^verbatim>\<open>-g\<close> or \<^verbatim>\<open>--children\<close> was given.
  So \<open>print_callgraph_\<close> implies \<open>accumulate_callchain_\<close>, also without
  \<^verbatim>\<open>--children\<close>.
\<close>

theorem callgraph_implies_accumulate:
  assumes "ParseOptions env args (ReportCommand_init env) = Inr cmd"
  shows "(print_callgraph' cmd \<longrightarrow> accumulate_callchain' cmd)
       \<and> (\<exists>options. PreprocessOptions env args = Some options
            \<and> print_callgraph' cmd = (opt_g options \<noteq> None)
            \<and> accumulate_callchain' cmd = (opt_g options \<noteq> None \<or> opt_children options))"
  using ParseOptions_fields [OF assms] by (auto simp: ReportCommand_init_def)

text \<open>
  The command line \<^verbatim>\<open>-g\<close>, without \<^verbatim>\<open>--children\<close>: parsing succeeds and sets both
  flags.
\<close>

theorem callgraph_implies_accumulate_witness:
  "\<exists>cmd. ParseOptions example_env [''-g''] (ReportCommand_init example_env) = Inr cmd
     \<and> print_callgraph' cmd \<and> accumulate_callchain' cmd
     \<and> PreprocessOptions example_env [''-g''] = Some (example_options\<lparr>opt_g := Some None\<rparr>)
     \<and> \<not> opt_children (example_options\<lparr>opt_g := Some None\<rparr>)"
proof -
  have "\<exists>cmd. ParseOptions example_env [''-g''] (ReportCommand_init example_env) = Inr cmd"
    unfolding ex_parse
    by (simp add: BuildSampleComparatorAndDisplayer_def branch_sort_keys_def Let_def
      ReportCommand_init_def)
  then obtain cmd where po: "ParseOptions example_env [''-g''] (ReportCommand_init example_env) = Inr cmd" ..
  have pre: "PreprocessOptions example_env [''-g''] = Some (example_options\<lparr>opt_g := Some None\<rparr>)"
    by (simp add: example_env_def)
  have nc: "\<not> opt_children (example_options\<lparr>opt_g := Some None\<rparr>)"
    by (simp add: example_options_def)
  from callgraph_implies_accumulate [OF po] pre
  have "print_callgraph' cmd \<and> accumulate_callchain' cmd" by auto
  with po pre nc show ?thesis by blast
qed

subsection \<open>C10: the pending record\<close>

text \<open>
  C10. A \<open>TimestampSampleTreeBuilder\<close> that has received a sequence of records holds,
  for every thread id, the last record of that thread in its cache. That record is never
  processed: replacing it by any record of the same thread and time changes nothing of
  the builder but the cache entry, so it contributes no entry, no period and no sample
  count. A thread with exactly one record contributes nothing at all: the builder is the
  one obtained without that record, up to the cache entry. \<open>GetSampleTree\<close> does not
  read the cache, so a pending record does not reach the report.
\<close>

theorem pending_record_not_processed:
  assumes k: "kind b = TimestampSampleTreeBuilder" and inv: "cache_keyed_by_tid b"
  shows "(\<exists>b'. ReportCmdProcessSampleRecords b rs = Inr b'
            \<and> (\<forall>t. next_sample_cache' b' t =
                  (case last_with_tid t rs of None \<Rightarrow> next_sample_cache' b t | Some r \<Rightarrow> Some r)))
       \<and> (\<forall>xs tt r r' ys.
             rs = xs @ [(tt, r)] @ ys \<and> (\<forall>x\<in>set ys. r_tid (snd x) \<noteq> r_tid r)
             \<and> r_tid r' = r_tid r \<and> r_time r' = r_time r \<longrightarrow>
             ReportCmdProcessSampleRecords b (xs @ [(tt, r')] @ ys)
               = map_sum id (\<lambda>b'. b'\<lparr>next_sample_cache' := (next_sample_cache' b')(r_tid r \<mapsto> r')\<rparr>)
                   (ReportCmdProcessSampleRecords b rs))
       \<and> (\<forall>xs tt r ys.
             rs = xs @ [(tt, r)] @ ys \<and> (\<forall>x\<in>set xs \<union> set ys. r_tid (snd x) \<noteq> r_tid r)
             \<and> next_sample_cache' b (r_tid r) = None \<longrightarrow>
             ReportCmdProcessSampleRecords b rs
               = map_sum id (\<lambda>b'. b'\<lparr>next_sample_cache' := (next_sample_cache' b')(r_tid r \<mapsto> r)\<rparr>)
                   (ReportCmdProcessSampleRecords b (xs @ ys)))
       \<and> (\<forall>c. GetSampleTree (b\<lparr>next_sample_cache' := c\<rparr>) = GetSampleTree b)"
proof (intro conjI allI impI)
  from timestamp_records [OF k inv, of rs]
  show "\<exists>b'. ReportCmdProcessSampleRecords b rs = Inr b'
            \<and> (\<forall>t. next_sample_cache' b' t =
                  (case last_with_tid t rs of None \<Rightarrow> next_sample_cache' b t | Some r \<Rightarrow> Some r))"
    by blast
next
  fix xs ys :: "(ThreadTree \<times> SampleRecord) list" and tt :: ThreadTree and r r' :: SampleRecord
  assume h: "rs = xs @ [(tt, r)] @ ys \<and> (\<forall>x\<in>set ys. r_tid (snd x) \<noteq> r_tid r)
             \<and> r_tid r' = r_tid r \<and> r_time r' = r_time r"
  then have ys: "\<forall>x\<in>set ys. r_tid (snd x) \<noteq> r_tid r"
    and s1: "r_tid r' = r_tid r" and s2: "r_time r' = r_time r" by simp_all
  from last_record_not_processed [OF k inv ys s1 s2, of xs tt] h
  show "ReportCmdProcessSampleRecords b (xs @ [(tt, r')] @ ys)
               = map_sum id (\<lambda>b'. b'\<lparr>next_sample_cache' := (next_sample_cache' b')(r_tid r \<mapsto> r')\<rparr>)
                   (ReportCmdProcessSampleRecords b rs)"
    by simp
next
  fix xs ys :: "(ThreadTree \<times> SampleRecord) list" and tt :: ThreadTree and r :: SampleRecord
  assume h: "rs = xs @ [(tt, r)] @ ys \<and> (\<forall>x\<in>set xs \<union> set ys. r_tid (snd x) \<noteq> r_tid r)
             \<and> next_sample_cache' b (r_tid r) = None"
  then have xs: "\<forall>x\<in>set xs. r_tid (snd x) \<noteq> r_tid r" and ys: "\<forall>x\<in>set ys. r_tid (snd x) \<noteq> r_tid r"
    and none: "next_sample_cache' b (r_tid r) = None" by auto
  from single_record_thread [OF k inv none xs ys, of tt] h
  show "ReportCmdProcessSampleRecords b rs
               = map_sum id (\<lambda>b'. b'\<lparr>next_sample_cache' := (next_sample_cache' b')(r_tid r \<mapsto> r)\<rparr>)
                   (ReportCmdProcessSampleRecords b (xs @ ys))"
    by simp
next
  fix c show "GetSampleTree (b\<lparr>next_sample_cache' := c\<rparr>) = GetSampleTree b"
    by (simp add: GetSampleTree_def)
qed

text \<open>
  Records of thread 7 at the times 1000 and 1300 and one record of thread 8 at 1100 in
  between. At the end the cache holds the record of thread 7 taken at 1300 and the
  record of thread 8; the builder is the one obtained from the two records of thread 7
  alone, up to the cache entry of thread 8; and another record of thread 7 at 1300 in
  place of the last one changes the cache entry only.
\<close>

theorem pending_record_not_processed_witness:
  "\<exists>b'. ReportCmdProcessSampleRecords (example_builder TimestampSampleTreeBuilder False)
          [(example_thread_tree, example_record 7 1000 5),
           (example_thread_tree, example_record 8 1100 5),
           (example_thread_tree, example_record 7 1300 5)] = Inr b'
     \<and> next_sample_cache' b' 7 = Some (example_record 7 1300 5)
     \<and> next_sample_cache' b' 8 = Some (example_record 8 1100 5)
     \<and> ReportCmdProcessSampleRecords (example_builder TimestampSampleTreeBuilder False)
          [(example_thread_tree, example_record 7 1000 5),
           (example_thread_tree, example_record 8 1100 5),
           (example_thread_tree, example_record 7 1300 5)]
       = map_sum id (\<lambda>b'. b'\<lparr>next_sample_cache' := (next_sample_cache' b')(8 \<mapsto> example_record 8 1100 5)\<rparr>)
           (ReportCmdProcessSampleRecords (example_builder TimestampSampleTreeBuilder False)
              [(example_thread_tree, example_record 7 1000 5),
               (example_thread_tree, example_record 7 1300 5)])
     \<and> ReportCmdProcessSampleRecords (example_builder TimestampSampleTreeBuilder False)
          [(example_thread_tree, example_record 7 1000 5),
           (example_thread_tree, example_record 8 1100 5),
           (example_thread_tree, example_record 7 1300 99)]
       = map_sum id (\<lambda>b'. b'\<lparr>next_sample_cache' := (next_sample_cache' b')(7 \<mapsto> example_record 7 1300 99)\<rparr>)
           (Inr b')"
proof -
  let ?b = "example_builder TimestampSampleTreeBuilder False"
  let ?r1 = "example_record 7 1000 5" and ?r2 = "example_record 8 1100 5"
  let ?r3 = "example_record 7 1300 5" and ?r3' = "example_record 7 1300 99"
  let ?tt = example_thread_tree
  let ?rs = "[(?tt, ?r1), (?tt, ?r2), (?tt, ?r3)]"
  have k: "kind ?b = TimestampSampleTreeBuilder" by (simp add: example_builder_def)
  have inv: "cache_keyed_by_tid ?b" by (simp add: cache_keyed_by_tid_def example_builder_def)
  note t = pending_record_not_processed [OF k inv, of ?rs]
  from t [THEN conjunct1] obtain b' where run: "ReportCmdProcessSampleRecords ?b ?rs = Inr b'"
    and c: "\<forall>t. next_sample_cache' b' t =
        (case last_with_tid t ?rs of None \<Rightarrow> next_sample_cache' ?b t | Some r \<Rightarrow> Some r)"
    by blast
  have l7: "last_with_tid 7 ?rs = Some ?r3" and l8: "last_with_tid 8 ?rs = Some ?r2"
    by (simp_all add: last_with_tid_def example_record_def)
  from c l7 l8 have c7: "next_sample_cache' b' 7 = Some ?r3"
    and c8: "next_sample_cache' b' 8 = Some ?r2" by simp_all
  have t8: "r_tid ?r2 = 8" and t7: "r_tid ?r3 = 7" by (simp_all add: example_record_def)
  have h2: "?rs = [(?tt, ?r1)] @ [(?tt, ?r2)] @ [(?tt, ?r3)]
      \<and> (\<forall>x\<in>set [(?tt, ?r1)] \<union> set [(?tt, ?r3)]. r_tid (snd x) \<noteq> r_tid ?r2)
      \<and> next_sample_cache' ?b (r_tid ?r2) = None"
    by (simp add: example_record_def example_builder_def)
  from t [THEN conjunct2, THEN conjunct2, THEN conjunct1, rule_format, OF h2]
  have single: "ReportCmdProcessSampleRecords ?b ?rs
      = map_sum id (\<lambda>b'. b'\<lparr>next_sample_cache' := (next_sample_cache' b')(8 \<mapsto> ?r2)\<rparr>)
          (ReportCmdProcessSampleRecords ?b [(?tt, ?r1), (?tt, ?r3)])"
    by (simp add: t8)
  have h3: "?rs = [(?tt, ?r1), (?tt, ?r2)] @ [(?tt, ?r3)] @ []
      \<and> (\<forall>x\<in>set []. r_tid (snd x) \<noteq> r_tid ?r3)
      \<and> r_tid ?r3' = r_tid ?r3 \<and> r_time ?r3' = r_time ?r3"
    by (simp add: example_record_def)
  from t [THEN conjunct2, THEN conjunct1, rule_format, OF h3]
  have last: "ReportCmdProcessSampleRecords ?b [(?tt, ?r1), (?tt, ?r2), (?tt, ?r3')]
      = map_sum id (\<lambda>b'. b'\<lparr>next_sample_cache' := (next_sample_cache' b')(7 \<mapsto> ?r3')\<rparr>) (Inr b')"
    by (simp only: append_Cons append_Nil t7 run)
  from run c7 c8 single last show ?thesis by (intro exI [of _ b']) simp
qed

end
